theory Spec2Isabelle
  imports Main "HOL-Library.Word"
begin

unbundle bit_operations_syntax

section \<open>Keccak parameters and tables\<close>

text \<open>
  The SHAKE file keeps the sponge state as 25 lanes of type \<open>uint64_t\<close>, addressed
  either by lane (the permutation) or by byte through a \<open>uint8_t *\<close> cast
  (absorb, finalize, squeeze). Lanes are 64-bit words here; the byte view is written
  out as little-endian extraction and injection further down.
\<close>

type_synonym lane = "64 word"
type_synonym byte = "8 word"

definition KECCAK_ROUNDS :: nat where
  "KECCAK_ROUNDS = 24"

definition STATE_SIZE :: nat where
  "STATE_SIZE = 25"

definition SHAKE128_RATE :: nat where
  "SHAKE128_RATE = 168"

definition SHAKE256_RATE :: nat where
  "SHAKE256_RATE = 136"

definition keccak_rotations :: "nat list" where
  "keccak_rotations =
    [0, 1, 62, 28, 27,
     36, 44, 6, 55, 20,
     3, 10, 43, 25, 39,
     41, 45, 15, 21, 8,
     18, 2, 61, 56, 14]"

definition keccak_round_constants :: "lane list" where
  "keccak_round_constants =
    [0x0000000000000001, 0x0000000000008082,
     0x800000000000808A, 0x8000000080008000,
     0x000000000000808B, 0x0000000080000001,
     0x8000000080008081, 0x8000000000008009,
     0x000000000000008A, 0x0000000000000088,
     0x0000000080008009, 0x000000008000000A,
     0x000000008000808B, 0x800000000000008B,
     0x8000000000008089, 0x8000000000008003,
     0x8000000000008002, 0x8000000000000080,
     0x000000000000800A, 0x800000008000000A,
     0x8000000080008081, 0x8000000000008080,
     0x0000000080000001, 0x8000000080008008]"

section \<open>Utility functions\<close>

text \<open>
  \<open>rotl64(x, n) = (x << n) | (x >> (64 - n))\<close>. The value below is the one the
  expression has when a shift by the full width yields 0 (\<open>drop_bit 64\<close> on a 64-bit
  word); a machine that masks the shift count to six bits yields \<open>x | x\<close>, the same word.
  In C both shift counts must lie in \<open>0..63\<close>, which \<open>rotl64_shift_defined\<close> records.
\<close>

definition rotl64 :: "lane \<Rightarrow> nat \<Rightarrow> lane" where
  "rotl64 x n = push_bit n x OR drop_bit (64 - n) x"

definition rotl64_shift_defined :: "int \<Rightarrow> bool" where
  "rotl64_shift_defined n = (0 \<le> n \<and> n < 64 \<and> 0 \<le> 64 - n \<and> 64 - n < 64)"

definition idx :: "nat \<Rightarrow> nat \<Rightarrow> nat" where
  "idx x y = y * 5 + x"

section \<open>The Keccak-f[1600] permutation\<close>

text \<open>The two nested loop orders of the source: \<open>x\<close> outer and \<open>y\<close> inner, and the reverse.\<close>

definition loop_xy :: "(nat \<times> nat) list" where
  "loop_xy = concat (map (\<lambda>x. map (\<lambda>y. (x, y)) [0..<5]) [0..<5])"

definition loop_yx :: "(nat \<times> nat) list" where
  "loop_yx = concat (map (\<lambda>y. map (\<lambda>x. (x, y)) [0..<5]) [0..<5])"

definition theta_C :: "lane list \<Rightarrow> lane list" where
  "theta_C s =
     map (\<lambda>x. s ! idx x 0 XOR s ! idx x 1 XOR s ! idx x 2 XOR s ! idx x 3 XOR s ! idx x 4)
       [0..<5]"

definition theta_D :: "lane list \<Rightarrow> lane list" where
  "theta_D C = map (\<lambda>x. C ! ((x + 4) mod 5) XOR rotl64 (C ! ((x + 1) mod 5)) 1) [0..<5]"

definition theta_apply :: "lane list \<Rightarrow> lane list \<Rightarrow> lane list" where
  "theta_apply D s = fold (\<lambda>(x, y) st. st[idx x y := st ! idx x y XOR D ! x]) loop_xy s"

definition theta :: "lane list \<Rightarrow> lane list" where
  "theta s = theta_apply (theta_D (theta_C s)) s"

text \<open>
  The rho/pi loop calls \<open>rotl64\<close> once per position, with the table entry of that
  position as the count. The scratch array \<open>B\<close> is uninitialised in the source and
  every one of its 25 entries is written by the loop; it starts as zeros here.
\<close>

definition rho_pi :: "lane list \<Rightarrow> lane list" where
  "rho_pi s =
     fold (\<lambda>(x, y) B. B[idx y ((2 * x + 3 * y) mod 5) :=
                          rotl64 (s ! idx x y) (keccak_rotations ! idx x y)])
       loop_xy (replicate 25 0)"

definition chi :: "lane list \<Rightarrow> lane list \<Rightarrow> lane list" where
  "chi B s =
     fold (\<lambda>(x, y) st. st[idx x y :=
              B ! idx x y XOR (NOT (B ! idx ((x + 1) mod 5) y) AND B ! idx ((x + 2) mod 5) y)])
       loop_yx s"

definition iota :: "nat \<Rightarrow> lane list \<Rightarrow> lane list" where
  "iota r s = s[0 := s ! 0 XOR keccak_round_constants ! r]"

definition keccak_round :: "nat \<Rightarrow> lane list \<Rightarrow> lane list" where
  "keccak_round r s = (let st = theta s; B = rho_pi st in iota r (chi B st))"

definition keccak_f1600 :: "lane list \<Rightarrow> lane list" where
  "keccak_f1600 s = fold keccak_round [0..<KECCAK_ROUNDS] s"

text \<open>The rotation counts handed to \<open>rotl64\<close> by one round, in call order.\<close>

definition theta_rotl_args :: "int list" where
  "theta_rotl_args = map (\<lambda>x. 1) [0..<5::nat]"

definition rho_pi_rotl_args :: "int list" where
  "rho_pi_rotl_args = map (\<lambda>(x, y). int (keccak_rotations ! idx x y)) loop_xy"

section \<open>Sponge construction\<close>

text \<open>
  \<open>keccak_state\<close> is the struct of the source: the lanes, the rate in bytes and the
  cursor. There is no phase field. The \<open>size_t\<close> fields are natural numbers; the one
  place where the source subtracts from one (\<open>rate - 1\<close>) has its wrap-around written out.
\<close>

record keccak_state =
  state :: "lane list"
  rate :: nat
  absorb_pos :: nat

text \<open>
  The source never returns an error code. The only failures of the model are the
  accesses C leaves undefined: a byte index outside the 200 bytes of the lane array, a
  read past the end of a caller's buffer, and a division by zero.
\<close>

datatype error = OutOfBounds | DivisionByZero

text \<open>
  The byte view \<open>(uint8_t *)ctx->state\<close> on a little-endian machine: byte \<open>i\<close> is bits
  \<open>8 * (i mod 8)\<close> and up of lane \<open>i div 8\<close>. \<open>get_byte\<close> is the read
  \<open>state_bytes[i]\<close>, \<open>xor_byte\<close> the update \<open>state_bytes[i] ^= v\<close>.
\<close>

definition get_byte :: "lane list \<Rightarrow> nat \<Rightarrow> error + byte" where
  "get_byte s i =
     (if i < 8 * STATE_SIZE then Inr (ucast (drop_bit (8 * (i mod 8)) (s ! (i div 8))))
      else Inl OutOfBounds)"

definition xor_byte :: "lane list \<Rightarrow> nat \<Rightarrow> byte \<Rightarrow> error + lane list" where
  "xor_byte s i v =
     (if i < 8 * STATE_SIZE
      then Inr (s[i div 8 := s ! (i div 8) XOR push_bit (8 * (i mod 8)) (ucast v)])
      else Inl OutOfBounds)"

text \<open>
  \<open>shake_init\<close> returns the initialised context together with what it wrote to
  \<open>stderr\<close>. The progress messages the other functions print on \<open>stdout\<close> are left out.
\<close>

definition shake_init :: "int \<Rightarrow> keccak_state \<times> string list" where
  "shake_init shake_bits =
     (let ctx = \<lparr>state = replicate STATE_SIZE 0, rate = 0, absorb_pos = 0\<rparr> in
      if shake_bits = 128 then (ctx\<lparr>rate := SHAKE128_RATE, absorb_pos := 0\<rparr>, [])
      else if shake_bits = 256 then (ctx\<lparr>rate := SHAKE256_RATE, absorb_pos := 0\<rparr>, [])
      else (ctx\<lparr>rate := SHAKE128_RATE, absorb_pos := 0\<rparr>,
            [''Invalid SHAKE variant'' @ [CHR 0x0A]]))"

text \<open>One iteration of the absorb loop, for the input byte \<open>b\<close>.\<close>

definition shake_absorb_step :: "keccak_state \<Rightarrow> byte \<Rightarrow> error + keccak_state" where
  "shake_absorb_step ctx b =
     (case xor_byte (state ctx) (absorb_pos ctx) b of
        Inl e \<Rightarrow> Inl e
      | Inr s \<Rightarrow>
          (let pos = absorb_pos ctx + 1 in
           if pos = rate ctx
           then Inr (ctx\<lparr>state := keccak_f1600 s, absorb_pos := 0\<rparr>)
           else Inr (ctx\<lparr>state := s, absorb_pos := pos\<rparr>)))"

fun shake_absorb :: "keccak_state \<Rightarrow> byte list \<Rightarrow> error + keccak_state" where
  "shake_absorb ctx [] = Inr ctx"
| "shake_absorb ctx (b # input) =
     (case shake_absorb_step ctx b of
        Inl e \<Rightarrow> Inl e
      | Inr ctx' \<Rightarrow> shake_absorb ctx' input)"

text \<open>\<open>ctx->rate - 1\<close> on \<open>size_t\<close>: a rate of 0 wraps to \<open>2^64 - 1\<close>.\<close>

definition rate_minus_1 :: "keccak_state \<Rightarrow> nat" where
  "rate_minus_1 ctx = (if rate ctx = 0 then 2 ^ 64 - 1 else rate ctx - 1)"

definition shake_finalize :: "keccak_state \<Rightarrow> error + keccak_state" where
  "shake_finalize ctx =
     (case xor_byte (state ctx) (absorb_pos ctx) 0x1F of
        Inl e \<Rightarrow> Inl e
      | Inr s1 \<Rightarrow>
          (case xor_byte s1 (rate_minus_1 ctx) 0x80 of
             Inl e \<Rightarrow> Inl e
           | Inr s2 \<Rightarrow> Inr (ctx\<lparr>state := keccak_f1600 s2, absorb_pos := 0\<rparr>)))"

text \<open>
  \<open>shake_squeeze\<close> returns the context and the \<open>outlen\<close> bytes written to \<open>output\<close>.
\<close>

definition squeeze_refill :: "keccak_state \<Rightarrow> keccak_state" where
  "squeeze_refill ctx =
     (if absorb_pos ctx = rate ctx
      then ctx\<lparr>state := keccak_f1600 (state ctx), absorb_pos := 0\<rparr>
      else ctx)"

fun shake_squeeze :: "keccak_state \<Rightarrow> nat \<Rightarrow> error + keccak_state \<times> byte list" where
  "shake_squeeze ctx 0 = Inr (ctx, [])"
| "shake_squeeze ctx (Suc outlen) =
     (case get_byte (state (squeeze_refill ctx)) (absorb_pos (squeeze_refill ctx)) of
        Inl e \<Rightarrow> Inl e
      | Inr b \<Rightarrow>
          (case shake_squeeze
                  ((squeeze_refill ctx)\<lparr>absorb_pos := absorb_pos (squeeze_refill ctx) + 1\<rparr>)
                  outlen of
             Inl e \<Rightarrow> Inl e
           | Inr (ctx', out) \<Rightarrow> Inr (ctx', b # out)))"

section \<open>High-level SHAKE API\<close>

text \<open>
  \<open>shake128\<close> and \<open>shake256\<close> have the same body in the source and differ only in the
  selector they pass to \<open>shake_init\<close>: init, absorb the whole input, finalize, squeeze
  \<open>outlen\<close> bytes. \<open>shake_run\<close> is that body with the selector as a parameter.
\<close>

definition shake_run :: "int \<Rightarrow> nat \<Rightarrow> byte list \<Rightarrow> error + byte list" where
  "shake_run shake_bits outlen input =
     (case shake_absorb (fst (shake_init shake_bits)) input of
        Inl e \<Rightarrow> Inl e
      | Inr c1 \<Rightarrow>
          (case shake_finalize c1 of
             Inl e \<Rightarrow> Inl e
           | Inr c2 \<Rightarrow>
               (case shake_squeeze c2 outlen of
                  Inl e \<Rightarrow> Inl e
                | Inr (c3, out) \<Rightarrow> Inr out)))"

definition shake128 :: "nat \<Rightarrow> byte list \<Rightarrow> error + byte list" where
  "shake128 outlen input = shake_run 128 outlen input"

definition shake256 :: "nat \<Rightarrow> byte list \<Rightarrow> error + byte list" where
  "shake256 outlen input = shake_run 256 outlen input"

text \<open>A caller that absorbs a message in several consecutive \<open>shake_absorb\<close> calls.\<close>

fun absorb_chunks :: "keccak_state \<Rightarrow> byte list list \<Rightarrow> error + keccak_state" where
  "absorb_chunks ctx [] = Inr ctx"
| "absorb_chunks ctx (m # ms) =
     (case shake_absorb ctx m of
        Inl e \<Rightarrow> Inl e
      | Inr ctx' \<Rightarrow> absorb_chunks ctx' ms)"

text \<open>The one-shot run with the message handed over in pieces.\<close>

definition shake_run_chunks :: "int \<Rightarrow> nat \<Rightarrow> byte list list \<Rightarrow> error + byte list" where
  "shake_run_chunks shake_bits outlen ms =
     (case absorb_chunks (fst (shake_init shake_bits)) ms of
        Inl e \<Rightarrow> Inl e
      | Inr c1 \<Rightarrow>
          (case shake_finalize c1 of
             Inl e \<Rightarrow> Inl e
           | Inr c2 \<Rightarrow>
               (case shake_squeeze c2 outlen of
                  Inl e \<Rightarrow> Inl e
                | Inr (c3, out) \<Rightarrow> Inr out)))"

section \<open>Byte accesses of the sponge operations\<close>

text \<open>
  The sponge functions touch the lanes in three ways only: \<open>state_bytes[i] ^= v\<close>, a read
  of \<open>state_bytes[i]\<close>, and a call of \<open>keccak_f1600\<close>. The lists below write down, in
  program order, which of these each function performs; \<open>run_accesses\<close> performs them on
  the lanes and collects the bytes read.
\<close>

datatype access = ByteXor nat byte | ByteRead nat | Permute

fun run_access :: "access \<Rightarrow> lane list \<times> byte list \<Rightarrow> error + lane list \<times> byte list" where
  "run_access (ByteXor i v) (s, out) =
     (case xor_byte s i v of Inl e \<Rightarrow> Inl e | Inr s' \<Rightarrow> Inr (s', out))"
| "run_access (ByteRead i) (s, out) =
     (case get_byte s i of Inl e \<Rightarrow> Inl e | Inr b \<Rightarrow> Inr (s, out @ [b]))"
| "run_access Permute (s, out) = Inr (keccak_f1600 s, out)"

fun run_accesses :: "access list \<Rightarrow> lane list \<times> byte list \<Rightarrow> error + lane list \<times> byte list" where
  "run_accesses [] so = Inr so"
| "run_accesses (a # as) so =
     (case run_access a so of Inl e \<Rightarrow> Inl e | Inr so' \<Rightarrow> run_accesses as so')"

fun absorb_accesses :: "nat \<Rightarrow> nat \<Rightarrow> byte list \<Rightarrow> access list" where
  "absorb_accesses r pos [] = []"
| "absorb_accesses r pos (b # input) =
     ByteXor pos b #
       (if pos + 1 = r then Permute # absorb_accesses r 0 input
        else absorb_accesses r (pos + 1) input)"

definition finalize_accesses :: "keccak_state \<Rightarrow> access list" where
  "finalize_accesses ctx =
     [ByteXor (absorb_pos ctx) 0x1F, ByteXor (rate_minus_1 ctx) 0x80, Permute]"

fun squeeze_accesses :: "nat \<Rightarrow> nat \<Rightarrow> nat \<Rightarrow> access list" where
  "squeeze_accesses r pos 0 = []"
| "squeeze_accesses r pos (Suc outlen) =
     (if pos = r then Permute # ByteRead 0 # squeeze_accesses r 1 outlen
      else ByteRead pos # squeeze_accesses r (pos + 1) outlen)"

fun below_rate :: "nat \<Rightarrow> access \<Rightarrow> bool" where
  "below_rate r (ByteXor i v) = (i < r)"
| "below_rate r (ByteRead i) = (i < r)"
| "below_rate r Permute = True"

section \<open>The key-generation demo: placeholder hash and its callers\<close>

definition Q :: nat where
  "Q = 8380417"

definition N :: nat where
  "N = 256"

definition K :: nat where
  "K = 4"

definition L :: nat where
  "L = 4"

definition ETA :: nat where
  "ETA = 2"

definition SEEDBYTES :: nat where
  "SEEDBYTES = 32"

text \<open>Results of a loop whose iterations may fail: the first failure, in loop order, wins.\<close>

fun collect_results :: "(error + 'a) list \<Rightarrow> error + 'a list" where
  "collect_results [] = Inr []"
| "collect_results (r # rs) =
     (case r of
        Inl e \<Rightarrow> Inl e
      | Inr x \<Rightarrow> (case collect_results rs of Inl e \<Rightarrow> Inl e | Inr xs \<Rightarrow> Inr (x # xs)))"

text \<open>
  The function named \<open>shake256\<close> in the key-generation file (not the sponge above):
  \<open>output[i] = input[i % inlen] ^ (i & 0xFF)\<close>. The buffer \<open>input\<close> is the list of
  bytes behind the pointer; \<open>inlen\<close> is passed separately, as in the source.
\<close>

definition shake256_placeholder_byte :: "byte list \<Rightarrow> nat \<Rightarrow> nat \<Rightarrow> error + byte" where
  "shake256_placeholder_byte input inlen i =
     (if inlen = 0 then Inl DivisionByZero
      else if i mod inlen < length input
      then Inr (input ! (i mod inlen) XOR ucast ((of_nat i :: 64 word) AND 0xFF))
      else Inl OutOfBounds)"

definition shake256_placeholder :: "nat \<Rightarrow> byte list \<Rightarrow> nat \<Rightarrow> error + byte list" where
  "shake256_placeholder outlen input inlen =
     collect_results (map (shake256_placeholder_byte input inlen) [0..<outlen])"

text \<open>
  \<open>sample_small_poly\<close>: the seed pointer must cover \<open>SEEDBYTES\<close> bytes for the
  \<open>memcpy\<close>; the coefficients are small integers, so they are plain integers here.
\<close>

definition sample_small_poly :: "byte list \<Rightarrow> 16 word \<Rightarrow> error + int list" where
  "sample_small_poly seed nonce =
     (if length seed < SEEDBYTES then Inl OutOfBounds
      else
        (let expanded_seed = take SEEDBYTES seed @ [ucast (nonce AND 0xFF), ucast (drop_bit 8 nonce)]
         in case shake256_placeholder (N * 2) expanded_seed (SEEDBYTES + 2) of
              Inl e \<Rightarrow> Inl e
            | Inr buf \<Rightarrow>
                Inr (map (\<lambda>i. int (unat (buf ! i) mod (2 * ETA + 1)) - int ETA) [0..<N])))"

definition expand_matrix_entry :: "byte list \<Rightarrow> nat \<Rightarrow> nat \<Rightarrow> error + int list" where
  "expand_matrix_entry seed i j =
     (if length seed < SEEDBYTES then Inl OutOfBounds
      else
        (let expanded = take SEEDBYTES seed @ [of_nat i, of_nat j]
         in case shake256_placeholder (N * 4) expanded (SEEDBYTES + 2) of
              Inl e \<Rightarrow> Inl e
            | Inr poly_seed \<Rightarrow>
                Inr (map (\<lambda>k. int (unat (fold (\<lambda>b (val :: 32 word).
                                     val OR push_bit (8 * b) (ucast (poly_seed ! (k * 3 + b))))
                                   [0..<3] 0) mod Q))
                      [0..<N])))"

definition expand_matrix_a :: "byte list \<Rightarrow> error + int list list list" where
  "expand_matrix_a seed =
     collect_results
       (map (\<lambda>i. collect_results (map (\<lambda>j. expand_matrix_entry seed i j) [0..<L])) [0..<K])"

section \<open>The engine invariant\<close>

text \<open>
  What \<open>shake_init\<close> establishes and \<open>shake_absorb\<close> and \<open>shake_finalize\<close> keep: a
  rate inside the 200 bytes of the lanes and a cursor strictly below it.
\<close>

definition engine_inv :: "keccak_state \<Rightarrow> bool" where
  "engine_inv ctx = (0 < rate ctx \<and> rate ctx \<le> 200 \<and> absorb_pos ctx < rate ctx)"

section \<open>Unrolled forms of the round steps\<close>

text \<open>
  On a state written out as 25 lanes, each loop of a round is a fixed list of lane
  expressions. These equations are derived from the loops above; they are what the
  evaluation of the permutation on concrete states rewrites with.
\<close>

lemma upt_0_5: "[0..<5] = [0, 1, 2, 3, 4]"
  by (simp add: numeral_eq_Suc)

lemma loop_xy_unrolled:
  "loop_xy = [(0,0),(0,1),(0,2),(0,3),(0,4), (1,0),(1,1),(1,2),(1,3),(1,4),
              (2,0),(2,1),(2,2),(2,3),(2,4), (3,0),(3,1),(3,2),(3,3),(3,4),
              (4,0),(4,1),(4,2),(4,3),(4,4)]"
  by (simp add: loop_xy_def upt_0_5)

lemma loop_yx_unrolled:
  "loop_yx = [(0,0),(1,0),(2,0),(3,0),(4,0), (0,1),(1,1),(2,1),(3,1),(4,1),
              (0,2),(1,2),(2,2),(3,2),(4,2), (0,3),(1,3),(2,3),(3,3),(4,3),
              (0,4),(1,4),(2,4),(3,4),(4,4)]"
  by (simp add: loop_yx_def upt_0_5)

lemma replicate_25:
  "replicate 25 x = [x,x,x,x,x, x,x,x,x,x, x,x,x,x,x, x,x,x,x,x, x,x,x,x,x]"
  by (simp add: numeral_eq_Suc)

lemma theta_C_unrolled:
  "theta_C [a0,a1,a2,a3,a4, a5,a6,a7,a8,a9, a10,a11,a12,a13,a14,
            a15,a16,a17,a18,a19, a20,a21,a22,a23,a24] =
     [a0 XOR a5 XOR a10 XOR a15 XOR a20,
      a1 XOR a6 XOR a11 XOR a16 XOR a21,
      a2 XOR a7 XOR a12 XOR a17 XOR a22,
      a3 XOR a8 XOR a13 XOR a18 XOR a23,
      a4 XOR a9 XOR a14 XOR a19 XOR a24]"
  by (simp add: theta_C_def idx_def upt_0_5)

lemma theta_D_unrolled:
  "theta_D [c0,c1,c2,c3,c4] =
     [c4 XOR rotl64 c1 1, c0 XOR rotl64 c2 1, c1 XOR rotl64 c3 1,
      c2 XOR rotl64 c4 1, c3 XOR rotl64 c0 1]"
  by (simp add: theta_D_def upt_0_5)

lemma theta_apply_unrolled:
  "theta_apply [d0,d1,d2,d3,d4]
       [a0,a1,a2,a3,a4, a5,a6,a7,a8,a9, a10,a11,a12,a13,a14,
        a15,a16,a17,a18,a19, a20,a21,a22,a23,a24] =
     [a0 XOR d0, a1 XOR d1, a2 XOR d2, a3 XOR d3, a4 XOR d4,
      a5 XOR d0, a6 XOR d1, a7 XOR d2, a8 XOR d3, a9 XOR d4,
      a10 XOR d0, a11 XOR d1, a12 XOR d2, a13 XOR d3, a14 XOR d4,
      a15 XOR d0, a16 XOR d1, a17 XOR d2, a18 XOR d3, a19 XOR d4,
      a20 XOR d0, a21 XOR d1, a22 XOR d2, a23 XOR d3, a24 XOR d4]"
  by (simp add: theta_apply_def loop_xy_unrolled idx_def)

lemma rho_pi_unrolled:
  "rho_pi [a0,a1,a2,a3,a4, a5,a6,a7,a8,a9, a10,a11,a12,a13,a14,
           a15,a16,a17,a18,a19, a20,a21,a22,a23,a24] =
     [rotl64 a0 0, rotl64 a6 44, rotl64 a12 43, rotl64 a18 21, rotl64 a24 14,
      rotl64 a3 28, rotl64 a9 20, rotl64 a10 3, rotl64 a16 45, rotl64 a22 61,
      rotl64 a1 1, rotl64 a7 6, rotl64 a13 25, rotl64 a19 8, rotl64 a20 18,
      rotl64 a4 27, rotl64 a5 36, rotl64 a11 10, rotl64 a17 15, rotl64 a23 56,
      rotl64 a2 62, rotl64 a8 55, rotl64 a14 39, rotl64 a15 41, rotl64 a21 2]"
  by (simp add: rho_pi_def loop_xy_unrolled idx_def keccak_rotations_def replicate_25)

lemma chi_unrolled:
  "chi [b0,b1,b2,b3,b4, b5,b6,b7,b8,b9, b10,b11,b12,b13,b14,
        b15,b16,b17,b18,b19, b20,b21,b22,b23,b24]
       [a0,a1,a2,a3,a4, a5,a6,a7,a8,a9, a10,a11,a12,a13,a14,
        a15,a16,a17,a18,a19, a20,a21,a22,a23,a24] =
     [b0 XOR (NOT b1 AND b2), b1 XOR (NOT b2 AND b3), b2 XOR (NOT b3 AND b4),
      b3 XOR (NOT b4 AND b0), b4 XOR (NOT b0 AND b1),
      b5 XOR (NOT b6 AND b7), b6 XOR (NOT b7 AND b8), b7 XOR (NOT b8 AND b9),
      b8 XOR (NOT b9 AND b5), b9 XOR (NOT b5 AND b6),
      b10 XOR (NOT b11 AND b12), b11 XOR (NOT b12 AND b13), b12 XOR (NOT b13 AND b14),
      b13 XOR (NOT b14 AND b10), b14 XOR (NOT b10 AND b11),
      b15 XOR (NOT b16 AND b17), b16 XOR (NOT b17 AND b18), b17 XOR (NOT b18 AND b19),
      b18 XOR (NOT b19 AND b15), b19 XOR (NOT b15 AND b16),
      b20 XOR (NOT b21 AND b22), b21 XOR (NOT b22 AND b23), b22 XOR (NOT b23 AND b24),
      b23 XOR (NOT b24 AND b20), b24 XOR (NOT b20 AND b21)]"
  by (simp add: chi_def loop_yx_unrolled idx_def)

section \<open>Evaluating the permutation on numerals\<close>

text \<open>
  Lane operations on numerals are computed on the binary representation
  (\<open>xor_num\<close>, \<open>and_not_num\<close>, \<open>or_num\<close>, \<open>take_bit_num\<close>), so that 24 rounds
  are evaluated by rewriting alone. A rotation by \<open>0 < n < 64\<close> is the low \<open>64 - n\<close>
  bits moved up by \<open>n\<close>, joined with the high \<open>n\<close> bits moved down.
\<close>

lemma word_xor_num:
  "(numeral m :: 'a::len word) XOR numeral n =
     (case xor_num m n of None \<Rightarrow> 0 | Some q \<Rightarrow> numeral q)"
proof -
  have "(numeral m :: 'a word) XOR numeral n = of_int (numeral m XOR numeral n)"
    by (simp only: of_int_xor_eq of_int_numeral)
  also have "\<dots> = (case xor_num m n of None \<Rightarrow> 0 | Some q \<Rightarrow> numeral q)"
    by (simp only: numeral_xor_num) (simp split: option.split)
  finally show ?thesis .
qed

lemma word_not_and_num:
  "NOT (numeral m :: 'a::len word) AND numeral n =
     (case and_not_num n m of None \<Rightarrow> 0 | Some q \<Rightarrow> numeral q)"
proof -
  have "NOT (numeral m :: 'a word) AND numeral n = of_int (NOT (numeral m) AND numeral n)"
    by (simp only: of_int_and_eq of_int_not_eq of_int_numeral)
  also have "\<dots> = (case and_not_num n m of None \<Rightarrow> 0 | Some q \<Rightarrow> numeral q)"
    by (simp only: int_numeral_not_and_num) (simp split: option.split)
  finally show ?thesis .
qed

lemma word_zero_ops:
  "0 XOR x = x" "x XOR 0 = x" "0 OR x = x" "x OR 0 = x" "NOT 0 AND x = x" "NOT x AND 0 = 0"
  "push_bit n 0 = 0" "push_bit 0 x = x" "drop_bit n 0 = 0" "drop_bit 0 x = x" "take_bit n 0 = 0"
  for x :: "'a::len word"
  by simp_all

lemma int_zero_ops:
  "0 OR i = i" "i OR 0 = i" "push_bit n 0 = 0" "push_bit 0 i = i" "drop_bit n 0 = 0"
  "drop_bit 0 i = i" "take_bit n 0 = 0" "drop_bit (numeral l) Numeral1 = 0"
  for i :: int
  by simp_all

lemma rotl64_of_int:
  "0 < n \<Longrightarrow> n < 64 \<Longrightarrow>
     rotl64 (of_int i) n =
       of_int (push_bit n (take_bit (64 - n) i) OR drop_bit (64 - n) (take_bit 64 i))"
  unfolding rotl64_def
  by (rule bit_word_eqI) (auto simp add: bit_simps)

lemma rotl64_numeral:
  "0 < n \<Longrightarrow> n < 64 \<Longrightarrow>
     rotl64 (numeral k) n =
       of_int (push_bit n (take_bit (64 - n) (numeral k)) OR
               drop_bit (64 - n) (take_bit 64 (numeral k)))"
  using rotl64_of_int [of n "numeral k"] by simp

lemma rotl64_0: "rotl64 x 0 = x" "rotl64 0 n = 0"
  by (simp_all add: rotl64_def)

lemma rotl64_by_table:
  "rotl64 (numeral k) 1 = of_int (push_bit Numeral1 (take_bit 63 (numeral k)) OR drop_bit 63 (take_bit 64 (numeral k)))"
  "rotl64 (numeral k) 2 = of_int (push_bit 2 (take_bit 62 (numeral k)) OR drop_bit 62 (take_bit 64 (numeral k)))"
  "rotl64 (numeral k) 3 = of_int (push_bit 3 (take_bit 61 (numeral k)) OR drop_bit 61 (take_bit 64 (numeral k)))"
  "rotl64 (numeral k) 6 = of_int (push_bit 6 (take_bit 58 (numeral k)) OR drop_bit 58 (take_bit 64 (numeral k)))"
  "rotl64 (numeral k) 8 = of_int (push_bit 8 (take_bit 56 (numeral k)) OR drop_bit 56 (take_bit 64 (numeral k)))"
  "rotl64 (numeral k) 10 = of_int (push_bit 10 (take_bit 54 (numeral k)) OR drop_bit 54 (take_bit 64 (numeral k)))"
  "rotl64 (numeral k) 14 = of_int (push_bit 14 (take_bit 50 (numeral k)) OR drop_bit 50 (take_bit 64 (numeral k)))"
  "rotl64 (numeral k) 15 = of_int (push_bit 15 (take_bit 49 (numeral k)) OR drop_bit 49 (take_bit 64 (numeral k)))"
  "rotl64 (numeral k) 18 = of_int (push_bit 18 (take_bit 46 (numeral k)) OR drop_bit 46 (take_bit 64 (numeral k)))"
  "rotl64 (numeral k) 20 = of_int (push_bit 20 (take_bit 44 (numeral k)) OR drop_bit 44 (take_bit 64 (numeral k)))"
  "rotl64 (numeral k) 21 = of_int (push_bit 21 (take_bit 43 (numeral k)) OR drop_bit 43 (take_bit 64 (numeral k)))"
  "rotl64 (numeral k) 25 = of_int (push_bit 25 (take_bit 39 (numeral k)) OR drop_bit 39 (take_bit 64 (numeral k)))"
  "rotl64 (numeral k) 27 = of_int (push_bit 27 (take_bit 37 (numeral k)) OR drop_bit 37 (take_bit 64 (numeral k)))"
  "rotl64 (numeral k) 28 = of_int (push_bit 28 (take_bit 36 (numeral k)) OR drop_bit 36 (take_bit 64 (numeral k)))"
  "rotl64 (numeral k) 36 = of_int (push_bit 36 (take_bit 28 (numeral k)) OR drop_bit 28 (take_bit 64 (numeral k)))"
  "rotl64 (numeral k) 39 = of_int (push_bit 39 (take_bit 25 (numeral k)) OR drop_bit 25 (take_bit 64 (numeral k)))"
  "rotl64 (numeral k) 41 = of_int (push_bit 41 (take_bit 23 (numeral k)) OR drop_bit 23 (take_bit 64 (numeral k)))"
  "rotl64 (numeral k) 43 = of_int (push_bit 43 (take_bit 21 (numeral k)) OR drop_bit 21 (take_bit 64 (numeral k)))"
  "rotl64 (numeral k) 44 = of_int (push_bit 44 (take_bit 20 (numeral k)) OR drop_bit 20 (take_bit 64 (numeral k)))"
  "rotl64 (numeral k) 45 = of_int (push_bit 45 (take_bit 19 (numeral k)) OR drop_bit 19 (take_bit 64 (numeral k)))"
  "rotl64 (numeral k) 55 = of_int (push_bit 55 (take_bit 9 (numeral k)) OR drop_bit 9 (take_bit 64 (numeral k)))"
  "rotl64 (numeral k) 56 = of_int (push_bit 56 (take_bit 8 (numeral k)) OR drop_bit 8 (take_bit 64 (numeral k)))"
  "rotl64 (numeral k) 61 = of_int (push_bit 61 (take_bit 3 (numeral k)) OR drop_bit 3 (take_bit 64 (numeral k)))"
  "rotl64 (numeral k) 62 = of_int (push_bit 62 (take_bit 2 (numeral k)) OR drop_bit 2 (take_bit 64 (numeral k)))"
  by (simp_all only: rotl64_numeral) simp_all

lemma iota_by_round:
  "iota 0 (a # s) = (a XOR Numeral1) # s"
  "iota 1 (a # s) = (a XOR 32898) # s"
  "iota 2 (a # s) = (a XOR 9223372036854808714) # s"
  "iota 3 (a # s) = (a XOR 9223372039002292224) # s"
  "iota 4 (a # s) = (a XOR 32907) # s"
  "iota 5 (a # s) = (a XOR 2147483649) # s"
  "iota 6 (a # s) = (a XOR 9223372039002292353) # s"
  "iota 7 (a # s) = (a XOR 9223372036854808585) # s"
  "iota 8 (a # s) = (a XOR 138) # s"
  "iota 9 (a # s) = (a XOR 136) # s"
  "iota 10 (a # s) = (a XOR 2147516425) # s"
  "iota 11 (a # s) = (a XOR 2147483658) # s"
  "iota 12 (a # s) = (a XOR 2147516555) # s"
  "iota 13 (a # s) = (a XOR 9223372036854775947) # s"
  "iota 14 (a # s) = (a XOR 9223372036854808713) # s"
  "iota 15 (a # s) = (a XOR 9223372036854808579) # s"
  "iota 16 (a # s) = (a XOR 9223372036854808578) # s"
  "iota 17 (a # s) = (a XOR 9223372036854775936) # s"
  "iota 18 (a # s) = (a XOR 32778) # s"
  "iota 19 (a # s) = (a XOR 9223372039002259466) # s"
  "iota 20 (a # s) = (a XOR 9223372039002292353) # s"
  "iota 21 (a # s) = (a XOR 9223372036854808704) # s"
  "iota 22 (a # s) = (a XOR 2147483649) # s"
  "iota 23 (a # s) = (a XOR 9223372039002292232) # s"
  by (simp_all add: iota_def keccak_round_constants_def)

lemma upt_0_24:
  "[0..<24] = [0, 1, 2, 3, 4, 5, 6, 7, 8, 9, 10, 11, 12, 13, 14, 15, 16, 17, 18, 19, 20, 21, 22, 23]"
  by (simp add: numeral_eq_Suc)

lemma keccak_f1600_unrolled:
  "keccak_f1600 s =
     keccak_round 23 (keccak_round 22 (keccak_round 21 (keccak_round 20 (keccak_round 19 (keccak_round 18 (keccak_round 17 (keccak_round 16 (keccak_round 15 (keccak_round 14 (keccak_round 13 (keccak_round 12 (keccak_round 11 (keccak_round 10 (keccak_round 9 (keccak_round 8 (keccak_round 7 (keccak_round 6 (keccak_round 5 (keccak_round 4 (keccak_round 3 (keccak_round 2 (keccak_round 1 (keccak_round 0 (s))))))))))))))))))))))))"
  by (simp add: keccak_f1600_def KECCAK_ROUNDS_def upt_0_24)

lemmas keccak_eval =
  keccak_round_def Let_def theta_def theta_C_unrolled theta_D_unrolled
  theta_apply_unrolled rho_pi_unrolled chi_unrolled iota_by_round rotl64_0 rotl64_by_table
  word_xor_num word_not_and_num word_zero_ops int_zero_ops numeral_or_num
  of_int_numeral of_int_0
  take_bit_numeral_numeral take_bit_num_simps pred_numeral_simps BitM.simps
  push_bit_numeral drop_bit_numeral_bit0 drop_bit_numeral_bit1
  xor_num.simps or_num.simps and_not_num.simps option.case option.map

lemma keccak_f1600_pad128:
  "keccak_f1600
     [31, 0, 0,
      0, 0, 0,
      0, 0, 0,
      0, 0, 0,
      0, 0, 0,
      0, 0, 0,
      0, 0, 9223372036854775808,
      0, 0, 0,
      0] =
     [9043949231062883455, 4505013007965053025, 9853013927095450583,
      2805574319695862507, 10613577533795250492, 7506090927794633744,
      7179837696871367022, 16309696963834652828, 7123607453476632629,
      8444243366050321080, 9840775137621348779, 12863776161131319861,
      11914769427852615610, 4095277618251414511, 13603140465032731359,
      16870573513866133276, 6223823698934615319, 12657591655303300899,
      11494396118247999232, 17275150748729506326, 12248859137272637358,
      919383550077094476, 7348884659982592767, 17136575678769697706,
      14734622643927918517]"
  by (simp only: keccak_f1600_unrolled keccak_eval)

lemma keccak_f1600_pad256:
  "keccak_f1600
     [31, 0, 0,
      0, 0, 0,
      0, 0, 0,
      0, 0, 0,
      0, 0, 0,
      0, 9223372036854775808, 0,
      0, 0, 0,
      0, 0, 0,
      0] =
     [1408967024370891078, 2660288676776327971, 9375289784279420223,
      3420155637137870005, 68328982030081495, 17767462936550376907,
      9706552727850222332, 13746313944957331776, 6285249846908952084,
      16382605403949050985, 8904622027833477084, 5992187373461210351,
      13227060313046097460, 1175488182848616386, 16506064000904152792,
      9714007992783491733, 15933519556721693171, 4217439691474232371,
      13330507119975600100, 99872467501470269, 16297867810027944918,
      15246305147534304439, 15630597895122669842, 8204945563355246737,
      17039162632324942729]"
  by (simp only: keccak_f1600_unrolled keccak_eval)

lemma keccak_f1600_zero:
  "keccak_f1600
     [0, 0, 0,
      0, 0, 0,
      0, 0, 0,
      0, 0, 0,
      0, 0, 0,
      0, 0, 0,
      0, 0, 0,
      0, 0, 0,
      0] =
     [17376452488221285863, 9571781953733019530, 15391093639620504046,
      13624874521033984333, 10027350355371872343, 18417369716475457492,
      10448040663659726788, 10113917136857017974, 12479658147685402012,
      3500241080921619556, 16959053435453822517, 12224711289652453635,
      9342009439668884831, 4879704952849025062, 140226327413610143,
      424854978622500449, 7259519967065370866, 7004910057750291985,
      13293599522548616907, 10105770293752443592, 10668034807192757780,
      1747952066141424100, 1654286879329379778, 8500057116360352059,
      16929593379567477321]"
  by (simp only: keccak_f1600_unrolled keccak_eval)

lemma keccak_f1600_zero_pad128:
  "keccak_f1600
     [17376452488221285880, 9571781953733019530, 15391093639620504046,
      13624874521033984333, 10027350355371872343, 18417369716475457492,
      10448040663659726788, 10113917136857017974, 12479658147685402012,
      3500241080921619556, 16959053435453822517, 12224711289652453635,
      9342009439668884831, 4879704952849025062, 140226327413610143,
      424854978622500449, 7259519967065370866, 7004910057750291985,
      13293599522548616907, 10105770293752443592, 1444662770337981972,
      1747952066141424100, 1654286879329379778, 8500057116360352059,
      16929593379567477321] =
     [12829778182986989692, 5149021242293789805, 13170655141668565370,
      12330798737216962102, 11108093808851839487, 15926093024751100111,
      10621745226312165900, 530952445360078821, 2829276810986654160,
      12936293457727737446, 3470792441071058542, 2977229025794637591,
      7931715190084635557, 8870640421447105110, 15610987435967618255,
      1044701972808226980, 2228208543764219094, 4119294056160343177,
      12633933219335171554, 14207454891340318706, 1679571448179846803,
      9173129367677006086, 8694854581801333942, 12427991235036206122,
      14792292496020127280]"
  by (simp only: keccak_f1600_unrolled keccak_eval)

lemma keccak_f1600_zero_pad256:
  "keccak_f1600
     [17376452488221285880, 9571781953733019530, 15391093639620504046,
      13624874521033984333, 10027350355371872343, 18417369716475457492,
      10448040663659726788, 10113917136857017974, 12479658147685402012,
      3500241080921619556, 16959053435453822517, 12224711289652453635,
      9342009439668884831, 4879704952849025062, 140226327413610143,
      424854978622500449, 16482892003920146674, 7004910057750291985,
      13293599522548616907, 10105770293752443592, 10668034807192757780,
      1747952066141424100, 1654286879329379778, 8500057116360352059,
      16929593379567477321] =
     [11177912695128823018, 8713090411522653706, 14759927248703847809,
      8142216446376303291, 9664379571918953944, 11162965945564722145,
      6216601469054779876, 18089897698964389836, 10133643745720495046,
      120209685150286922, 4611813651058213360, 2153512856436632500,
      1455850650337123899, 3567126197325344424, 3617810807205898460,
      3668059529805960510, 2433411471574158553, 9432635657443898168,
      12678034695715571596, 12757320068954604630, 10344824145923759726,
      2440666865667768662, 13704986541304152988, 13640386539608464999,
      4994853631740454872]"
  by (simp only: keccak_f1600_unrolled keccak_eval)

lemma keccak_f1600_pad128_twice:
  "keccak_f1600
     [9043949231062883424, 4505013007965053025, 9853013927095450583,
      2805574319695862507, 10613577533795250492, 7506090927794633744,
      7179837696871367022, 16309696963834652828, 7123607453476632629,
      8444243366050321080, 9840775137621348779, 12863776161131319861,
      11914769427852615610, 4095277618251414511, 13603140465032731359,
      16870573513866133276, 6223823698934615319, 12657591655303300899,
      11494396118247999232, 17275150748729506326, 3025487100417861550,
      919383550077094476, 7348884659982592767, 17136575678769697706,
      14734622643927918517] =
     [14242660508215232864, 17081435640980485728, 10285477566526454023,
      1885764730410833988, 16644906247329707465, 14127044145656504798,
      12342772937984043747, 4592061670999063827, 12419751646333765875,
      6637058165415962879, 6035752779246405935, 14238588336357079362,
      8124381867199313695, 3021411478303215391, 13160691377524829321,
      12084003301635901753, 11528222327392726270, 8027973188068260362,
      9878433522686736990, 11364688389761088234, 16846489249764650750,
      7505429597813500070, 16635163672500373582, 13959403934472424440,
      16217758769167872867]"
  by (simp only: keccak_f1600_unrolled keccak_eval)

section \<open>Chunking of absorb\<close>

lemma shake_absorb_append:
  "shake_absorb ctx (m1 @ m2) =
     (case shake_absorb ctx m1 of Inl e \<Rightarrow> Inl e | Inr ctx' \<Rightarrow> shake_absorb ctx' m2)"
  by (induction m1 arbitrary: ctx) (simp_all split: sum.splits)

lemma absorb_chunks_concat:
  "absorb_chunks ctx ms = shake_absorb ctx (concat ms)"
proof (induction ms arbitrary: ctx)
  case Nil
  show ?case by simp
next
  case (Cons m ms)
  show ?case
    by (simp add: shake_absorb_append Cons.IH split: sum.splits)
qed

text \<open>
  C6. Chunk-invariance of absorb. Absorbing a message in consecutive pieces, one
  \<open>shake_absorb\<close> call per piece, gives exactly the result (lanes, rate and cursor, or
  the same failure) of absorbing the concatenation in a single call, from any context;
  in particular absorbing \<open>m1 @ m2\<close> is absorbing \<open>m1\<close> and then \<open>m2\<close>, and the
  digest of a one-shot run does not depend on the chunking, for either variant.
\<close>

theorem absorb_chunk_invariance:
  "absorb_chunks ctx ms = shake_absorb ctx (concat ms) \<and>
   shake_absorb ctx (m1 @ m2) =
     (case shake_absorb ctx m1 of Inl e \<Rightarrow> Inl e | Inr ctx' \<Rightarrow> shake_absorb ctx' m2) \<and>
   shake_run_chunks shake_bits outlen ms = shake_run shake_bits outlen (concat ms)"
  by (simp add: absorb_chunks_concat shake_absorb_append [symmetric] shake_run_chunks_def
      shake_run_def)

section \<open>Totality of the one-shot functions and the prefix property\<close>

lemma engine_inv_init: "engine_inv (fst (shake_init shake_bits))"
  by (simp add: shake_init_def engine_inv_def SHAKE128_RATE_def SHAKE256_RATE_def Let_def)

lemma shake_absorb_step_inv:
  assumes "engine_inv ctx"
  shows "\<exists>c. shake_absorb_step ctx b = Inr c \<and> engine_inv c \<and> rate c = rate ctx \<and>
             absorb_pos c = (absorb_pos ctx + 1) mod rate ctx"
  using assms
  by (auto simp add: shake_absorb_step_def xor_byte_def engine_inv_def STATE_SIZE_def Let_def)

lemma shake_absorb_inv:
  "engine_inv ctx \<Longrightarrow>
     \<exists>c. shake_absorb ctx m = Inr c \<and> engine_inv c \<and> rate c = rate ctx \<and>
         absorb_pos c = (absorb_pos ctx + length m) mod rate ctx"
proof (induction m arbitrary: ctx)
  case Nil
  then show ?case by (simp add: engine_inv_def)
next
  case (Cons b m)
  from shake_absorb_step_inv [OF Cons.prems, of b] obtain c1 where
    c1: "shake_absorb_step ctx b = Inr c1" "engine_inv c1" "rate c1 = rate ctx"
        "absorb_pos c1 = (absorb_pos ctx + 1) mod rate ctx"
    by blast
  from Cons.IH [OF c1(2)] obtain c where
    c: "shake_absorb c1 m = Inr c" "engine_inv c" "rate c = rate c1"
       "absorb_pos c = (absorb_pos c1 + length m) mod rate c1"
    by blast
  have "absorb_pos c = (absorb_pos ctx + length (b # m)) mod rate ctx"
    using c(4) c1(3,4) by (simp add: mod_simps ac_simps)
  with c1 c show ?case by simp
qed

lemma shake_finalize_inv:
  assumes "engine_inv ctx"
  shows "\<exists>c. shake_finalize ctx = Inr c \<and> engine_inv c \<and> rate c = rate ctx \<and> absorb_pos c = 0"
  using assms
  by (auto simp add: shake_finalize_def xor_byte_def engine_inv_def STATE_SIZE_def rate_minus_1_def)

lemma shake_squeeze_total:
  "0 < rate ctx \<Longrightarrow> rate ctx \<le> 200 \<Longrightarrow> absorb_pos ctx \<le> rate ctx \<Longrightarrow>
     \<exists>c out. shake_squeeze ctx outlen = Inr (c, out) \<and> length out = outlen \<and>
            rate c = rate ctx \<and> absorb_pos c \<le> rate c"
proof (induction outlen arbitrary: ctx)
  case 0
  then show ?case by simp
next
  case (Suc outlen)
  let ?c = "squeeze_refill ctx"
  have r: "rate ?c = rate ctx" "absorb_pos ?c < rate ctx"
    using Suc.prems by (auto simp add: squeeze_refill_def)
  then obtain b where b: "get_byte (state ?c) (absorb_pos ?c) = Inr b"
    using Suc.prems by (auto simp add: get_byte_def STATE_SIZE_def)
  let ?c1 = "?c\<lparr>absorb_pos := absorb_pos ?c + 1\<rparr>"
  have "0 < rate ?c1" "rate ?c1 \<le> 200" "absorb_pos ?c1 \<le> rate ?c1"
    using r Suc.prems by simp_all
  from Suc.IH [OF this] obtain c out where
    "shake_squeeze ?c1 outlen = Inr (c, out)" "length out = outlen" "rate c = rate ?c1"
    "absorb_pos c \<le> rate c"
    by blast
  with b r show ?case by simp
qed

lemma shake_squeeze_prefix:
  "shake_squeeze ctx n2 = Inr (c2, o2) \<Longrightarrow> n1 \<le> n2 \<Longrightarrow>
     \<exists>c1. shake_squeeze ctx n1 = Inr (c1, take n1 o2)"
proof (induction n1 arbitrary: ctx n2 c2 o2)
  case 0
  then show ?case by simp
next
  case (Suc n1)
  then obtain m where m: "n2 = Suc m" "n1 \<le> m"
    by (cases n2) auto
  from Suc.prems(1) obtain b o' where
    b: "get_byte (state (squeeze_refill ctx)) (absorb_pos (squeeze_refill ctx)) = Inr b"
    and r: "shake_squeeze ((squeeze_refill ctx)\<lparr>absorb_pos := absorb_pos (squeeze_refill ctx) + 1\<rparr>) m
              = Inr (c2, o')"
    and o2: "o2 = b # o'"
    unfolding m by (auto split: sum.splits)
  from Suc.IH [OF r m(2)] obtain c1 where
    "shake_squeeze ((squeeze_refill ctx)\<lparr>absorb_pos := absorb_pos (squeeze_refill ctx) + 1\<rparr>) n1
       = Inr (c1, take n1 o')"
    by blast
  with b o2 show ?case by simp
qed

lemma shake_run_total:
  "\<exists>c1 c2 c3 out. shake_absorb (fst (shake_init shake_bits)) input = Inr c1 \<and> engine_inv c1 \<and>
     shake_finalize c1 = Inr c2 \<and> engine_inv c2 \<and>
     shake_squeeze c2 outlen = Inr (c3, out) \<and> length out = outlen \<and>
     shake_run shake_bits outlen input = Inr out"
proof -
  from shake_absorb_inv [OF engine_inv_init] obtain c1 where
    c1: "shake_absorb (fst (shake_init shake_bits)) input = Inr c1" "engine_inv c1"
    by blast
  from shake_finalize_inv [OF c1(2)] obtain c2 where
    c2: "shake_finalize c1 = Inr c2" "engine_inv c2"
    by blast
  from c2(2) have "0 < rate c2" "rate c2 \<le> 200" "absorb_pos c2 \<le> rate c2"
    by (simp_all add: engine_inv_def)
  from shake_squeeze_total [OF this] obtain c3 out where
    c3: "shake_squeeze c2 outlen = Inr (c3, out)" "length out = outlen"
    by blast
  have "shake_run shake_bits outlen input = Inr out"
    by (simp add: shake_run_def c1 c2 c3)
  with c1 c2 c3 show ?thesis by blast
qed

lemma shake_run_prefix:
  assumes "n1 \<le> n2"
  shows "\<exists>o1 o2. shake_run shake_bits n1 input = Inr o1 \<and>
                shake_run shake_bits n2 input = Inr o2 \<and> length o2 = n2 \<and> take n1 o2 = o1"
proof -
  from shake_run_total [of shake_bits input n2] obtain c1 c2 c3 o2 where
    c: "shake_absorb (fst (shake_init shake_bits)) input = Inr c1"
       "shake_finalize c1 = Inr c2" "shake_squeeze c2 n2 = Inr (c3, o2)" "length o2 = n2"
       "shake_run shake_bits n2 input = Inr o2"
    by blast
  from shake_squeeze_prefix [OF c(3) assms] obtain c3' where
    "shake_squeeze c2 n1 = Inr (c3', take n1 o2)"
    by blast
  then have "shake_run shake_bits n1 input = Inr (take n1 o2)"
    by (simp add: shake_run_def c)
  with c show ?thesis by blast
qed

text \<open>
  C5. Prefix property: for every input \<open>m\<close> and output lengths \<open>n1 \<le> n2\<close>, both
  \<open>shake128\<close> runs succeed and the first \<open>n1\<close> bytes of the \<open>n2\<close>-byte output are
  exactly the \<open>n1\<close>-byte output; likewise for \<open>shake256\<close>.
\<close>

theorem xof_prefix_property:
  "n1 \<le> n2 \<Longrightarrow>
     (\<exists>o1 o2. shake128 n1 m = Inr o1 \<and> shake128 n2 m = Inr o2 \<and> length o2 = n2 \<and> take n1 o2 = o1) \<and>
     (\<exists>o1 o2. shake256 n1 m = Inr o1 \<and> shake256 n2 m = Inr o2 \<and> length o2 = n2 \<and> take n1 o2 = o1)"
  unfolding shake128_def shake256_def
  using shake_run_prefix [of n1 n2 128 m] shake_run_prefix [of n1 n2 256 m] by blast

theorem xof_prefix_property_witness:
  "(1::nat) \<le> 2 \<and>
     (\<exists>o1 o2. shake128 1 [0x61] = Inr o1 \<and> shake128 2 [0x61] = Inr o2 \<and> length o2 = 2 \<and> take 1 o2 = o1) \<and>
     (\<exists>o1 o2. shake256 1 [0x61] = Inr o1 \<and> shake256 2 [0x61] = Inr o2 \<and> length o2 = 2 \<and> take 1 o2 = o1)"
  using xof_prefix_property [of 1 2 "[0x61]"] by simp

section \<open>The byte view: one byte changes at a time\<close>

lemma get_byte_xor_byte_same:
  assumes "i < 200" "length s = 25"
  shows "\<exists>s' b. xor_byte s i v = Inr s' \<and> length s' = 25 \<and> get_byte s i = Inr b \<and>
           get_byte s' i = Inr (b XOR v)"
proof -
  have k: "i div 8 < length s" using assms by simp
  have "ucast (drop_bit (8 * (i mod 8)) (s ! (i div 8) XOR push_bit (8 * (i mod 8)) (ucast v :: lane))) =
        (ucast (drop_bit (8 * (i mod 8)) (s ! (i div 8))) :: byte) XOR v"
    by (rule bit_word_eqI) (auto simp add: bit_simps)
  with assms k show ?thesis
    by (simp add: xor_byte_def get_byte_def STATE_SIZE_def)
qed


lemma byte_of_lane_xor_other:
  fixes w :: lane and v :: byte
  assumes "a < 8" "b < 8" "a \<noteq> b"
  shows "(ucast (drop_bit (8 * b) (w XOR push_bit (8 * a) (ucast v :: lane))) :: byte) =
         ucast (drop_bit (8 * b) w)"
proof (rule bit_word_eqI)
  fix n assume n: "n < LENGTH(8)"
  have *: "\<not> (8 * a \<le> 8 * b + n \<and> 8 * b + n - 8 * a < 8)"
    using assms n by auto
  have "bit (push_bit (8 * a) (ucast v :: lane)) (8 * b + n) = False"
  proof -
    have "\<not> bit v (8 * b + n - 8 * a)" if "8 * a \<le> 8 * b + n"
      using * that by (auto dest: bit_imp_le_length)
    then show ?thesis
      by (auto simp add: bit_push_bit_iff bit_ucast_iff)
  qed
  then show "bit (ucast (drop_bit (8 * b) (w XOR push_bit (8 * a) (ucast v :: lane))) :: byte) n =
          bit (ucast (drop_bit (8 * b) w) :: byte) n"
    using n by (simp add: bit_ucast_iff bit_drop_bit_eq bit_xor_iff)
qed

lemma div_mod_neq:
  "(j::nat) \<noteq> i \<Longrightarrow> j div 8 = i div 8 \<Longrightarrow> j mod 8 \<noteq> i mod 8"
  by (metis div_mult_mod_eq)


lemma get_byte_xor_byte_other:
  assumes "i < 200" "j < 200" "j \<noteq> i" "length s = 25"
  shows "\<exists>s'. xor_byte s i v = Inr s' \<and> get_byte s' j = get_byte s j"
proof -
  have x: "xor_byte s i v =
             Inr (s[i div 8 := s ! (i div 8) XOR push_bit (8 * (i mod 8)) (ucast v)])"
    using assms(1) by (simp add: xor_byte_def STATE_SIZE_def)
  have k: "i div 8 < length s" using assms by simp
  show ?thesis
  proof (cases "j div 8 = i div 8")
    case False
    then show ?thesis
      unfolding x by (simp add: get_byte_def)
  next
    case True
    with assms(3) have "i mod 8 \<noteq> j mod 8"
      using div_mod_neq [of j i] by auto
    then have "(ucast (drop_bit (8 * (j mod 8))
                 (s ! (i div 8) XOR push_bit (8 * (i mod 8)) (ucast v :: lane))) :: byte) =
               ucast (drop_bit (8 * (j mod 8)) (s ! (i div 8)))"
      by (intro byte_of_lane_xor_other) simp_all
    with True k show ?thesis
      unfolding x by (simp add: get_byte_def)
  qed
qed

text \<open>
  C8. When \<open>shake_finalize\<close> runs with the cursor on the last byte of the rate region
  (\<open>absorb_pos = rate - 1\<close>), it succeeds, and the lanes it hands to the final
  permutation differ from the lanes before only in that byte, which has received both
  padding XORs: it is the prior byte XOR \<open>0x1F\<close> XOR \<open>0x80\<close>, that is XOR \<open>0x9F\<close>.
\<close>

theorem finalize_last_byte:
  assumes "0 < rate ctx" "rate ctx \<le> 200" "absorb_pos ctx = rate ctx - 1"
    and "length (state ctx) = 25"
  shows "\<exists>b s2. get_byte (state ctx) (rate ctx - 1) = Inr b \<and>
           shake_finalize ctx = Inr (ctx\<lparr>state := keccak_f1600 s2, absorb_pos := 0\<rparr>) \<and>
           length s2 = 25 \<and>
           get_byte s2 (rate ctx - 1) = Inr ((b XOR 0x1F) XOR 0x80) \<and>
           get_byte s2 (rate ctx - 1) = Inr (b XOR 0x9F) \<and>
           (\<forall>j<200. j \<noteq> rate ctx - 1 \<longrightarrow> get_byte s2 j = get_byte (state ctx) j)"
proof -
  let ?p = "rate ctx - 1"
  have p: "?p < 200" "rate_minus_1 ctx = ?p"
    using assms by (simp_all add: rate_minus_1_def)
  from get_byte_xor_byte_same [OF p(1) assms(4), of "0x1F"] obtain s1 b where
    s1: "xor_byte (state ctx) ?p 0x1F = Inr s1" "length s1 = 25"
        "get_byte (state ctx) ?p = Inr b" "get_byte s1 ?p = Inr (b XOR 0x1F)"
    by blast
  from get_byte_xor_byte_same [OF p(1) s1(2), of "0x80"] obtain s2 b' where
    s2': "xor_byte s1 ?p 0x80 = Inr s2" "length s2 = 25"
         "get_byte s1 ?p = Inr b'" "get_byte s2 ?p = Inr (b' XOR 0x80)"
    by blast
  from s2'(3) s1(4) have "b' = b XOR 0x1F" by simp
  with s2' have s2: "xor_byte s1 ?p 0x80 = Inr s2" "length s2 = 25"
    "get_byte s2 ?p = Inr ((b XOR 0x1F) XOR 0x80)"
    by simp_all
  have fin: "shake_finalize ctx = Inr (ctx\<lparr>state := keccak_f1600 s2, absorb_pos := 0\<rparr>)"
    using assms(3) p(2) s1(1) s2(1) by (simp add: shake_finalize_def)
  have other: "get_byte s2 j = get_byte (state ctx) j" if "j < 200" "j \<noteq> ?p" for j
  proof -
    from get_byte_xor_byte_other [OF p(1) that assms(4), of "0x1F"] s1(1)
    have a: "get_byte s1 j = get_byte (state ctx) j" by simp
    from get_byte_xor_byte_other [OF p(1) that s1(2), of "0x80"] s2(1)
    have "get_byte s2 j = get_byte s1 j" by simp
    with a show ?thesis by simp
  qed
  have "(b XOR 0x1F) XOR 0x80 = b XOR 0x9F"
    by (simp add: xor.assoc)
  with s1(3) s2(2,3) fin other show ?thesis
    by auto
qed

theorem finalize_last_byte_witness:
  "\<exists>b s2. get_byte (replicate 25 0) 167 = Inr b \<and>
      shake_finalize \<lparr>state = replicate 25 0, rate = 168, absorb_pos = 167\<rparr> =
        Inr \<lparr>state = keccak_f1600 s2, rate = 168, absorb_pos = 0\<rparr> \<and>
      length s2 = 25 \<and>
      get_byte s2 167 = Inr ((b XOR 0x1F) XOR 0x80) \<and>
      get_byte s2 167 = Inr (b XOR 0x9F) \<and>
      (\<forall>j<200. j \<noteq> 167 \<longrightarrow> get_byte s2 j = get_byte (replicate 25 0) j)"
  using finalize_last_byte [of "\<lparr>state = replicate 25 0, rate = 168, absorb_pos = 167\<rparr>"]
  by simp

section \<open>The capacity region\<close>

lemma shake_absorb_accesses:
  "map_sum id (\<lambda>c. (state c, out)) (shake_absorb ctx input) =
     run_accesses (absorb_accesses (rate ctx) (absorb_pos ctx) input) (state ctx, out)"
proof (induction input arbitrary: ctx)
  case Nil
  show ?case by simp
next
  case (Cons b input)
  show ?case
  proof (cases "xor_byte (state ctx) (absorb_pos ctx) b")
    case (Inl e)
    then show ?thesis by (simp add: shake_absorb_step_def)
  next
    case (Inr s)
    show ?thesis
    proof (cases "absorb_pos ctx + 1 = rate ctx")
      case True
      with Inr Cons.IH [of "ctx\<lparr>state := keccak_f1600 s, absorb_pos := 0\<rparr>"] show ?thesis
        by (simp add: shake_absorb_step_def)
    next
      case False
      with Inr Cons.IH [of "ctx\<lparr>state := s, absorb_pos := absorb_pos ctx + 1\<rparr>"] show ?thesis
        by (simp add: shake_absorb_step_def)
    qed
  qed
qed

lemma absorb_accesses_below_rate:
  "pos < r \<Longrightarrow> list_all (below_rate r) (absorb_accesses r pos input)"
  by (induction input arbitrary: pos) auto

lemma shake_finalize_accesses:
  "map_sum id (\<lambda>c. (state c, out)) (shake_finalize ctx) =
     run_accesses (finalize_accesses ctx) (state ctx, out)"
  by (simp add: shake_finalize_def finalize_accesses_def split: sum.splits)

lemma finalize_accesses_below_rate:
  "absorb_pos ctx < rate ctx \<Longrightarrow> list_all (below_rate (rate ctx)) (finalize_accesses ctx)"
  by (simp add: finalize_accesses_def rate_minus_1_def)

lemma shake_squeeze_accesses:
  "map_sum id (\<lambda>(c, out'). (state c, out @ out')) (shake_squeeze ctx outlen) =
     run_accesses (squeeze_accesses (rate ctx) (absorb_pos ctx) outlen) (state ctx, out)"
proof (induction outlen arbitrary: ctx out)
  case 0
  show ?case by simp
next
  case (Suc outlen)
  let ?c = "squeeze_refill ctx"
  show ?case
  proof (cases "get_byte (state ?c) (absorb_pos ?c)")
    case (Inl e)
    then show ?thesis by (simp add: squeeze_refill_def split: if_splits)
  next
    case (Inr b)
    from Suc.IH [of "out @ [b]" "?c\<lparr>absorb_pos := absorb_pos ?c + 1\<rparr>"] Inr
    show ?thesis
      by (auto simp add: squeeze_refill_def split: if_splits sum.splits)
  qed
qed

lemma squeeze_accesses_below_rate:
  "0 < r \<Longrightarrow> pos \<le> r \<Longrightarrow> list_all (below_rate r) (squeeze_accesses r pos outlen)"
  by (induction outlen arbitrary: pos) auto


lemma run_access_frame:
  assumes "run_access a (s, out) = Inr (s', out')" "a \<noteq> Permute" "below_rate r a"
    and "r \<le> 200" "length s = 25" "r \<le> j" "j < 200"
  shows "get_byte s' j = get_byte s j"
proof (cases a)
  case (ByteXor i v)
  with assms have i: "i < 200" "j \<noteq> i" by simp_all
  from get_byte_xor_byte_other [OF i(1) assms(7) i(2) assms(5), of v] assms(1) ByteXor
  show ?thesis by auto
next
  case (ByteRead i)
  with assms(1) show ?thesis by (auto split: sum.splits)
next
  case Permute
  with assms(2) show ?thesis by simp
qed

text \<open>
  C9, amended. On an engine whose cursor is strictly below the rate, \<open>shake_absorb\<close>
  and \<open>shake_finalize\<close> are the execution of their access lists and every byte index
  in those lists is strictly below \<open>rate\<close> (absorb at the cursor, finalize at the
  cursor and at \<open>rate - 1\<close>); on an engine with a positive rate and a cursor of at most
  the rate, the same holds for \<open>shake_squeeze\<close>. A byte access below the rate leaves
  every byte at index \<open>rate\<close> or above as it was, so under these conditions those bytes
  change only in \<open>keccak_f1600\<close>. (\<open>shake_squeeze\<close> can return with the cursor equal
  to the rate; what a following \<open>shake_absorb\<close> does is shown further down.)
\<close>

theorem capacity_untouched:
  "(absorb_pos ctx < rate ctx \<longrightarrow>
      map_sum id (\<lambda>c. (state c, [])) (shake_absorb ctx input) =
        run_accesses (absorb_accesses (rate ctx) (absorb_pos ctx) input) (state ctx, []) \<and>
      list_all (below_rate (rate ctx)) (absorb_accesses (rate ctx) (absorb_pos ctx) input) \<and>
      map_sum id (\<lambda>c. (state c, [])) (shake_finalize ctx) =
        run_accesses (finalize_accesses ctx) (state ctx, []) \<and>
      list_all (below_rate (rate ctx)) (finalize_accesses ctx)) \<and>
   (0 < rate ctx \<and> absorb_pos ctx \<le> rate ctx \<longrightarrow>
      map_sum id (\<lambda>(c, out). (state c, out)) (shake_squeeze ctx outlen) =
        run_accesses (squeeze_accesses (rate ctx) (absorb_pos ctx) outlen) (state ctx, []) \<and>
      list_all (below_rate (rate ctx)) (squeeze_accesses (rate ctx) (absorb_pos ctx) outlen)) \<and>
   (\<forall>a s out s' out' j.
      run_access a (s, out) = Inr (s', out') \<and> a \<noteq> Permute \<and> below_rate (rate ctx) a \<and>
      rate ctx \<le> 200 \<and> length s = 25 \<and> rate ctx \<le> j \<and> j < 200 \<longrightarrow>
      get_byte s' j = get_byte s j)"
proof (intro conjI impI allI)
  show "map_sum id (\<lambda>c. (state c, [])) (shake_absorb ctx input) =
        run_accesses (absorb_accesses (rate ctx) (absorb_pos ctx) input) (state ctx, [])"
    by (rule shake_absorb_accesses)
  show "map_sum id (\<lambda>c. (state c, [])) (shake_finalize ctx) =
        run_accesses (finalize_accesses ctx) (state ctx, [])"
    by (rule shake_finalize_accesses)
  show "map_sum id (\<lambda>(c, out). (state c, out)) (shake_squeeze ctx outlen) =
        run_accesses (squeeze_accesses (rate ctx) (absorb_pos ctx) outlen) (state ctx, [])"
    using shake_squeeze_accesses [of "[]" ctx outlen] by simp
next
  assume "absorb_pos ctx < rate ctx"
  then show "list_all (below_rate (rate ctx)) (absorb_accesses (rate ctx) (absorb_pos ctx) input)"
    and "list_all (below_rate (rate ctx)) (finalize_accesses ctx)"
    by (simp_all add: absorb_accesses_below_rate finalize_accesses_below_rate)
next
  assume "0 < rate ctx \<and> absorb_pos ctx \<le> rate ctx"
  then show "list_all (below_rate (rate ctx)) (squeeze_accesses (rate ctx) (absorb_pos ctx) outlen)"
    by (simp add: squeeze_accesses_below_rate)
next
  fix a s out s' out' j
  assume "run_access a (s, out) = Inr (s', out') \<and> a \<noteq> Permute \<and> below_rate (rate ctx) a \<and>
      rate ctx \<le> 200 \<and> length s = 25 \<and> rate ctx \<le> j \<and> j < 200"
  then show "get_byte s' j = get_byte s j"
    using run_access_frame [of a s out s' out' "rate ctx" j] by blast
qed

theorem capacity_untouched_witness:
  "(0::nat) < 168 \<and>
   map_sum id (\<lambda>c. (state c, [])) (shake_absorb (fst (shake_init 128)) [0x61, 0x62]) =
     run_accesses (absorb_accesses 168 0 [0x61, 0x62]) (replicate 25 0, []) \<and>
   list_all (below_rate 168) (absorb_accesses 168 0 [0x61, 0x62]) \<and>
   map_sum id (\<lambda>c. (state c, [])) (shake_finalize (fst (shake_init 128))) =
     run_accesses (finalize_accesses (fst (shake_init 128))) (replicate 25 0, []) \<and>
   list_all (below_rate 168) (finalize_accesses (fst (shake_init 128))) \<and>
   map_sum id (\<lambda>(c, out). (state c, out)) (shake_squeeze (fst (shake_init 128)) 3) =
     run_accesses (squeeze_accesses 168 0 3) (replicate 25 0, []) \<and>
   list_all (below_rate 168) (squeeze_accesses 168 0 3)"
proof -
  have c: "rate (fst (shake_init 128)) = 168" "absorb_pos (fst (shake_init 128)) = 0"
    "state (fst (shake_init 128)) = replicate 25 0"
    by (simp_all add: shake_init_def SHAKE128_RATE_def STATE_SIZE_def)
  show ?thesis
    using capacity_untouched [of "fst (shake_init 128)" "[0x61, 0x62]" 3]
    unfolding c by simp
qed

section \<open>Known-answer vectors\<close>

lemma shake_squeeze_within:
  "absorb_pos ctx + n \<le> rate ctx \<Longrightarrow> rate ctx \<le> 200 \<Longrightarrow>
     shake_squeeze ctx n =
       Inr (ctx\<lparr>absorb_pos := absorb_pos ctx + n\<rparr>,
            map (\<lambda>i. ucast (drop_bit (8 * (i mod 8)) (state ctx ! (i div 8))))
              [absorb_pos ctx..<absorb_pos ctx + n])"
proof (induction n arbitrary: ctx)
  case 0
  show ?case by simp
next
  case (Suc n)
  from Suc.prems have r: "squeeze_refill ctx = ctx" and p: "absorb_pos ctx < 200"
    by (simp_all add: squeeze_refill_def)
  from Suc.prems have "absorb_pos (ctx\<lparr>absorb_pos := absorb_pos ctx + 1\<rparr>) + n
      \<le> rate (ctx\<lparr>absorb_pos := absorb_pos ctx + 1\<rparr>)"
    and "rate (ctx\<lparr>absorb_pos := absorb_pos ctx + 1\<rparr>) \<le> 200"
    by simp_all
  from Suc.IH [OF this]
  have ih: "shake_squeeze (ctx\<lparr>absorb_pos := absorb_pos ctx + 1\<rparr>) n =
      Inr (ctx\<lparr>absorb_pos := absorb_pos ctx + 1 + n\<rparr>,
           map (\<lambda>i. ucast (drop_bit (8 * (i mod 8)) (state ctx ! (i div 8))))
             [absorb_pos ctx + 1..<absorb_pos ctx + 1 + n])"
    by simp
  have u: "[absorb_pos ctx..<absorb_pos ctx + Suc n] =
           absorb_pos ctx # [absorb_pos ctx + 1..<absorb_pos ctx + 1 + n]"
    by (simp add: upt_conv_Cons del: upt_Suc)
  show ?case
    unfolding u using p ih by (simp add: r get_byte_def STATE_SIZE_def del: upt_Suc)
qed

lemma upt_0_32:
  "[0..<32] = [0, 1, 2, 3, 4, 5, 6, 7, 8, 9, 10, 11, 12, 13, 14, 15,
               16, 17, 18, 19, 20, 21, 22, 23, 24, 25, 26, 27, 28, 29, 30, 31]"
  by (simp add: numeral_eq_Suc)

lemma shake_finalize_fresh128:
  "shake_finalize \<lparr>state = replicate 25 0, rate = 168, absorb_pos = 0\<rparr> =
     Inr \<lparr>state = [9043949231062883455, 4505013007965053025, 9853013927095450583,
                   2805574319695862507, 10613577533795250492, 7506090927794633744,
                   7179837696871367022, 16309696963834652828, 7123607453476632629,
                   8444243366050321080, 9840775137621348779, 12863776161131319861,
                   11914769427852615610, 4095277618251414511, 13603140465032731359,
                   16870573513866133276, 6223823698934615319, 12657591655303300899,
                   11494396118247999232, 17275150748729506326, 12248859137272637358,
                   919383550077094476, 7348884659982592767, 17136575678769697706,
                   14734622643927918517],
          rate = 168, absorb_pos = 0\<rparr>"
  by (simp add: shake_finalize_def xor_byte_def rate_minus_1_def STATE_SIZE_def replicate_25
      keccak_f1600_pad128)

lemma shake128_empty_32:
  "shake128 32 [] = Inr [0x7f, 0x9c, 0x2b, 0xa4, 0xe8, 0x8f, 0x82, 0x7d,
      0x61, 0x60, 0x45, 0x50, 0x76, 0x05, 0x85, 0x3e,
      0xd7, 0x3b, 0x80, 0x93, 0xf6, 0xef, 0xbc, 0x88,
      0xeb, 0x1a, 0x6e, 0xac, 0xfa, 0x66, 0xef, 0x26]"
  by (simp add: shake128_def shake_run_def shake_init_def SHAKE128_RATE_def STATE_SIZE_def
      shake_finalize_fresh128 shake_squeeze_within upt_0_32)

lemma shake_finalize_fresh256:
  "shake_finalize \<lparr>state = replicate 25 0, rate = 136, absorb_pos = 0\<rparr> =
     Inr \<lparr>state = [1408967024370891078, 2660288676776327971, 9375289784279420223,
                   3420155637137870005, 68328982030081495, 17767462936550376907,
                   9706552727850222332, 13746313944957331776, 6285249846908952084,
                   16382605403949050985, 8904622027833477084, 5992187373461210351,
                   13227060313046097460, 1175488182848616386, 16506064000904152792,
                   9714007992783491733, 15933519556721693171, 4217439691474232371,
                   13330507119975600100, 99872467501470269, 16297867810027944918,
                   15246305147534304439, 15630597895122669842, 8204945563355246737,
                   17039162632324942729],
          rate = 136, absorb_pos = 0\<rparr>"
  by (simp add: shake_finalize_def xor_byte_def rate_minus_1_def STATE_SIZE_def replicate_25
      keccak_f1600_pad256)

lemma shake256_empty_32:
  "shake256 32 [] = Inr [0x46, 0xb9, 0xdd, 0x2b, 0x0b, 0xa8, 0x8d, 0x13,
      0x23, 0x3b, 0x3f, 0xeb, 0x74, 0x3e, 0xeb, 0x24,
      0x3f, 0xcd, 0x52, 0xea, 0x62, 0xb8, 0x1b, 0x82,
      0xb5, 0x0c, 0x27, 0x64, 0x6e, 0xd5, 0x76, 0x2f]"
  by (simp add: shake256_def shake_run_def shake_init_def SHAKE256_RATE_def STATE_SIZE_def
      shake_finalize_fresh256 shake_squeeze_within upt_0_32)


text \<open>
  C1. For the empty input and output length 32, \<open>shake128\<close> returns the published
  SHAKE-128 empty-message vector \<open>7f 9c 2b a4 ... ef 26\<close>, and \<open>shake256\<close> returns the
  published SHAKE-256 empty-message vector \<open>46 b9 dd 2b ... 76 2f\<close>, under the
  little-endian byte view of the 25 lanes.
\<close>

theorem shake_empty_known_vectors:
  "shake128 32 [] =
     Inr [0x7f, 0x9c, 0x2b, 0xa4, 0xe8, 0x8f, 0x82, 0x7d,
      0x61, 0x60, 0x45, 0x50, 0x76, 0x05, 0x85, 0x3e,
      0xd7, 0x3b, 0x80, 0x93, 0xf6, 0xef, 0xbc, 0x88,
      0xeb, 0x1a, 0x6e, 0xac, 0xfa, 0x66, 0xef, 0x26] \<and>
   shake256 32 [] =
     Inr [0x46, 0xb9, 0xdd, 0x2b, 0x0b, 0xa8, 0x8d, 0x13,
      0x23, 0x3b, 0x3f, 0xeb, 0x74, 0x3e, 0xeb, 0x24,
      0x3f, 0xcd, 0x52, 0xea, 0x62, 0xb8, 0x1b, 0x82,
      0xb5, 0x0c, 0x27, 0x64, 0x6e, 0xd5, 0x76, 0x2f]"
  by (simp only: shake128_empty_32 shake256_empty_32)

section \<open>Input of exactly one block\<close>

lemma xor_byte_zero:
  "i < 200 \<Longrightarrow> length s = 25 \<Longrightarrow> xor_byte s i 0 = Inr s"
  by (simp add: xor_byte_def STATE_SIZE_def)

lemma shake_absorb_zeros_within:
  "absorb_pos ctx + n < rate ctx \<Longrightarrow> rate ctx \<le> 200 \<Longrightarrow> length (state ctx) = 25 \<Longrightarrow>
     shake_absorb ctx (replicate n 0) = Inr (ctx\<lparr>absorb_pos := absorb_pos ctx + n\<rparr>)"
proof (induction n arbitrary: ctx)
  case 0
  show ?case by simp
next
  case (Suc n)
  from Suc.prems have step:
    "shake_absorb_step ctx 0 = Inr (ctx\<lparr>absorb_pos := absorb_pos ctx + 1\<rparr>)"
    by (simp add: shake_absorb_step_def xor_byte_zero)
  from Suc.prems Suc.IH [of "ctx\<lparr>absorb_pos := absorb_pos ctx + 1\<rparr>"] show ?case
    by (simp add: step)
qed

lemma shake_absorb_zero_block:
  assumes "0 < rate ctx" "rate ctx \<le> 200" "length (state ctx) = 25" "absorb_pos ctx = 0"
  shows "shake_absorb ctx (replicate (rate ctx) 0) =
           Inr (ctx\<lparr>state := keccak_f1600 (state ctx), absorb_pos := 0\<rparr>)"
proof -
  from assms(1) have r: "replicate (rate ctx) (0::byte) = replicate (rate ctx - 1) 0 @ [0]"
    by (metis Suc_pred' replicate_Suc replicate_append_same)
  from assms have w: "shake_absorb ctx (replicate (rate ctx - 1) 0) =
      Inr (ctx\<lparr>absorb_pos := rate ctx - 1\<rparr>)"
    using shake_absorb_zeros_within [of ctx "rate ctx - 1"] by simp
  from assms have "shake_absorb_step (ctx\<lparr>absorb_pos := rate ctx - 1\<rparr>) 0 =
      Inr (ctx\<lparr>state := keccak_f1600 (state ctx), absorb_pos := 0\<rparr>)"
    by (simp add: shake_absorb_step_def xor_byte_zero)
  with w show ?thesis
    unfolding r by (simp add: shake_absorb_append)
qed

lemma shake_squeeze_one:
  "absorb_pos ctx < rate ctx \<Longrightarrow> rate ctx \<le> 200 \<Longrightarrow>
     shake_squeeze ctx (Suc 0) =
       Inr (ctx\<lparr>absorb_pos := absorb_pos ctx + 1\<rparr>,
            [ucast (drop_bit (8 * (absorb_pos ctx mod 8)) (state ctx ! (absorb_pos ctx div 8)))])"
  using shake_squeeze_within [of ctx 1] by simp

lemma shake128_zero_block_1:
  "shake128 1 (replicate 168 0) = Inr [0x7c]"
proof -
  let ?c = "\<lparr>state = replicate 25 0, rate = 168, absorb_pos = 0\<rparr>"
  have i: "fst (shake_init 128) = ?c"
    by (simp add: shake_init_def SHAKE128_RATE_def STATE_SIZE_def)
  have a: "shake_absorb ?c (replicate 168 0) =
      Inr \<lparr>state = [17376452488221285863, 9571781953733019530, 15391093639620504046,
                   13624874521033984333, 10027350355371872343, 18417369716475457492,
                   10448040663659726788, 10113917136857017974, 12479658147685402012,
                   3500241080921619556, 16959053435453822517, 12224711289652453635,
                   9342009439668884831, 4879704952849025062, 140226327413610143,
                   424854978622500449, 7259519967065370866, 7004910057750291985,
                   13293599522548616907, 10105770293752443592, 10668034807192757780,
                   1747952066141424100, 1654286879329379778, 8500057116360352059,
                   16929593379567477321],
           rate = 168, absorb_pos = 0\<rparr>"
    using shake_absorb_zero_block [of ?c] by (simp add: replicate_25 keccak_f1600_zero)
  have f: "shake_finalize
      \<lparr>state = [17376452488221285863, 9571781953733019530, 15391093639620504046,
                   13624874521033984333, 10027350355371872343, 18417369716475457492,
                   10448040663659726788, 10113917136857017974, 12479658147685402012,
                   3500241080921619556, 16959053435453822517, 12224711289652453635,
                   9342009439668884831, 4879704952849025062, 140226327413610143,
                   424854978622500449, 7259519967065370866, 7004910057750291985,
                   13293599522548616907, 10105770293752443592, 10668034807192757780,
                   1747952066141424100, 1654286879329379778, 8500057116360352059,
                   16929593379567477321],
       rate = 168, absorb_pos = 0\<rparr> =
      Inr \<lparr>state = [12829778182986989692, 5149021242293789805, 13170655141668565370,
                   12330798737216962102, 11108093808851839487, 15926093024751100111,
                   10621745226312165900, 530952445360078821, 2829276810986654160,
                   12936293457727737446, 3470792441071058542, 2977229025794637591,
                   7931715190084635557, 8870640421447105110, 15610987435967618255,
                   1044701972808226980, 2228208543764219094, 4119294056160343177,
                   12633933219335171554, 14207454891340318706, 1679571448179846803,
                   9173129367677006086, 8694854581801333942, 12427991235036206122,
                   14792292496020127280],
           rate = 168, absorb_pos = 0\<rparr>"
    by (simp add: shake_finalize_def xor_byte_def rate_minus_1_def STATE_SIZE_def
        keccak_f1600_zero_pad128)
  show ?thesis
    by (simp add: shake128_def shake_run_def i a f shake_squeeze_one del: shake_squeeze.simps)
qed

lemma shake256_zero_block_1:
  "shake256 1 (replicate 136 0) = Inr [0xea]"
proof -
  let ?c = "\<lparr>state = replicate 25 0, rate = 136, absorb_pos = 0\<rparr>"
  have i: "fst (shake_init 256) = ?c"
    by (simp add: shake_init_def SHAKE256_RATE_def STATE_SIZE_def)
  have a: "shake_absorb ?c (replicate 136 0) =
      Inr \<lparr>state = [17376452488221285863, 9571781953733019530, 15391093639620504046,
                   13624874521033984333, 10027350355371872343, 18417369716475457492,
                   10448040663659726788, 10113917136857017974, 12479658147685402012,
                   3500241080921619556, 16959053435453822517, 12224711289652453635,
                   9342009439668884831, 4879704952849025062, 140226327413610143,
                   424854978622500449, 7259519967065370866, 7004910057750291985,
                   13293599522548616907, 10105770293752443592, 10668034807192757780,
                   1747952066141424100, 1654286879329379778, 8500057116360352059,
                   16929593379567477321],
           rate = 136, absorb_pos = 0\<rparr>"
    using shake_absorb_zero_block [of ?c] by (simp add: replicate_25 keccak_f1600_zero)
  have f: "shake_finalize
      \<lparr>state = [17376452488221285863, 9571781953733019530, 15391093639620504046,
                   13624874521033984333, 10027350355371872343, 18417369716475457492,
                   10448040663659726788, 10113917136857017974, 12479658147685402012,
                   3500241080921619556, 16959053435453822517, 12224711289652453635,
                   9342009439668884831, 4879704952849025062, 140226327413610143,
                   424854978622500449, 7259519967065370866, 7004910057750291985,
                   13293599522548616907, 10105770293752443592, 10668034807192757780,
                   1747952066141424100, 1654286879329379778, 8500057116360352059,
                   16929593379567477321],
       rate = 136, absorb_pos = 0\<rparr> =
      Inr \<lparr>state = [11177912695128823018, 8713090411522653706, 14759927248703847809,
                   8142216446376303291, 9664379571918953944, 11162965945564722145,
                   6216601469054779876, 18089897698964389836, 10133643745720495046,
                   120209685150286922, 4611813651058213360, 2153512856436632500,
                   1455850650337123899, 3567126197325344424, 3617810807205898460,
                   3668059529805960510, 2433411471574158553, 9432635657443898168,
                   12678034695715571596, 12757320068954604630, 10344824145923759726,
                   2440666865667768662, 13704986541304152988, 13640386539608464999,
                   4994853631740454872],
           rate = 136, absorb_pos = 0\<rparr>"
    by (simp add: shake_finalize_def xor_byte_def rate_minus_1_def STATE_SIZE_def
        keccak_f1600_zero_pad256)
  show ?thesis
    by (simp add: shake256_def shake_run_def i a f shake_squeeze_one del: shake_squeeze.simps)
qed

lemma shake_run_first_byte:
  assumes "0 < n"
  shows "\<exists>out. shake_run shake_bits n input = Inr out \<and>
               shake_run shake_bits 1 input = Inr (take 1 out)"
  using shake_run_prefix [of 1 n shake_bits input] assms by auto

lemma shake128_empty_1: "shake128 1 [] = Inr [0x7f]"
  using shake_run_prefix [of 1 32 128 "[]"] shake128_empty_32
  by (simp add: shake128_def)

lemma shake256_empty_1: "shake256 1 [] = Inr [0x46]"
  using shake_run_prefix [of 1 32 256 "[]"] shake256_empty_32
  by (simp add: shake256_def)

text \<open>
  C7. Padding lands in a fresh block. After any sequence of \<open>shake_absorb\<close> calls on a
  freshly initialised engine (any selector) the calls have succeeded and the cursor is
  the absorbed length modulo the rate, hence strictly below the rate and 0 after an exact
  multiple of the rate. Consequently the digest of one rate-length block of zero bytes
  differs from the digest of the empty input, at every output length above 0 and for
  both variants.
\<close>

theorem padding_in_fresh_block:
  "(\<exists>c. absorb_chunks (fst (shake_init shake_bits)) ms = Inr c \<and>
        absorb_pos c < rate c \<and> absorb_pos c = length (concat ms) mod rate c) \<and>
   (0 < n \<longrightarrow>
      shake128 n (replicate SHAKE128_RATE 0) \<noteq> shake128 n [] \<and>
      shake256 n (replicate SHAKE256_RATE 0) \<noteq> shake256 n [])"
proof (intro conjI impI)
  from shake_absorb_inv [OF engine_inv_init, of shake_bits "concat ms"] obtain c where
    c: "shake_absorb (fst (shake_init shake_bits)) (concat ms) = Inr c" "engine_inv c"
       "rate c = rate (fst (shake_init shake_bits))"
       "absorb_pos c = (absorb_pos (fst (shake_init shake_bits)) + length (concat ms))
          mod rate (fst (shake_init shake_bits))"
    by blast
  have "absorb_pos (fst (shake_init shake_bits)) = 0"
    by (simp add: shake_init_def Let_def)
  with c show "\<exists>c. absorb_chunks (fst (shake_init shake_bits)) ms = Inr c \<and>
        absorb_pos c < rate c \<and> absorb_pos c = length (concat ms) mod rate c"
    by (auto simp add: absorb_chunks_concat engine_inv_def)
next
  assume n: "0 < n"
  show "shake128 n (replicate SHAKE128_RATE 0) \<noteq> shake128 n []"
  proof
    assume eq: "shake128 n (replicate SHAKE128_RATE 0) = shake128 n []"
    from shake_run_first_byte [OF n, of 128 "replicate 168 0"]
      shake_run_first_byte [OF n, of 128 "[]"] eq
    have "shake128 1 (replicate 168 0) = shake128 1 []"
      by (auto simp add: shake128_def SHAKE128_RATE_def)
    then show False
      unfolding shake128_zero_block_1 shake128_empty_1 by simp
  qed
  show "shake256 n (replicate SHAKE256_RATE 0) \<noteq> shake256 n []"
  proof
    assume eq: "shake256 n (replicate SHAKE256_RATE 0) = shake256 n []"
    from shake_run_first_byte [OF n, of 256 "replicate 136 0"]
      shake_run_first_byte [OF n, of 256 "[]"] eq
    have "shake256 1 (replicate 136 0) = shake256 1 []"
      by (auto simp add: shake256_def SHAKE256_RATE_def)
    then show False
      unfolding shake256_zero_block_1 shake256_empty_1 by simp
  qed
qed

theorem padding_in_fresh_block_witness:
  "(0::nat) < 32 \<and>
   (\<exists>c. absorb_chunks (fst (shake_init 128)) [[0x41, 0x42], [0x43, 0x44]] = Inr c \<and>
        absorb_pos c < rate c \<and>
        absorb_pos c = length (concat [[0x41, 0x42], [0x43, 0x44 :: byte]]) mod rate c) \<and>
   shake128 32 (replicate SHAKE128_RATE 0) \<noteq> shake128 32 [] \<and>
   shake256 32 (replicate SHAKE256_RATE 0) \<noteq> shake256 32 []"
  using padding_in_fresh_block [of 128 "[[0x41, 0x42], [0x43, 0x44]]" 32] by simp

section \<open>An invalid variant selector\<close>

text \<open>
  C4, as stated, fails: \<open>shake_init\<close> with the selector 512 yields the very context
  that the selector 128 yields (rate 168, zero lanes, cursor 0), and a one-shot run with
  it produces the SHAKE-128 digest.
\<close>

theorem invalid_variant_gets_default_rate:
  "fst (shake_init 512) = fst (shake_init 128) \<and>
   fst (shake_init 512) = \<lparr>state = replicate 25 0, rate = 168, absorb_pos = 0\<rparr> \<and>
   shake_run 512 32 [] = shake128 32 []"
  by (simp add: shake_init_def shake_run_def shake128_def SHAKE128_RATE_def STATE_SIZE_def)

text \<open>
  C4, amended. For a selector other than 128 and 256, \<open>shake_init\<close> writes the line
  \<open>Invalid SHAKE variant\<close> to \<open>stderr\<close> and returns a fully initialised engine with
  the SHAKE-128 rate, zero lanes and cursor 0, which satisfies the engine invariant; no
  error reaches the caller.
\<close>

theorem shake_init_invalid_variant:
  "shake_bits \<noteq> 128 \<Longrightarrow> shake_bits \<noteq> 256 \<Longrightarrow>
     shake_init shake_bits =
       (\<lparr>state = replicate STATE_SIZE 0, rate = SHAKE128_RATE, absorb_pos = 0\<rparr>,
        [''Invalid SHAKE variant'' @ [CHR 0x0A]]) \<and>
     engine_inv (fst (shake_init shake_bits))"
  by (simp add: shake_init_def engine_inv_def SHAKE128_RATE_def)

theorem shake_init_invalid_variant_witness:
  "(512::int) \<noteq> 128 \<and> (512::int) \<noteq> 256 \<and>
   shake_init 512 =
     (\<lparr>state = replicate STATE_SIZE 0, rate = SHAKE128_RATE, absorb_pos = 0\<rparr>,
      [''Invalid SHAKE variant'' @ [CHR 0x0A]]) \<and>
   engine_inv (fst (shake_init 512))"
proof -
  have h: "(512::int) \<noteq> 128" "(512::int) \<noteq> 256"
    by simp_all
  from shake_init_invalid_variant [OF h] h show ?thesis
    by blast
qed

section \<open>Calls after finalize\<close>

text \<open>
  C3, as stated, fails: on the engine that has finalized the empty message,
  \<open>shake_absorb\<close> of one byte returns normally with lane 0 changed and the cursor at 1,
  and a second \<open>shake_finalize\<close> returns normally with the lanes padded and permuted
  once more.
\<close>

theorem misuse_after_finalize_succeeds:
  "shake_finalize (fst (shake_init 128)) =
     Inr \<lparr>state = [9043949231062883455, 4505013007965053025, 9853013927095450583,
                   2805574319695862507, 10613577533795250492, 7506090927794633744,
                   7179837696871367022, 16309696963834652828, 7123607453476632629,
                   8444243366050321080, 9840775137621348779, 12863776161131319861,
                   11914769427852615610, 4095277618251414511, 13603140465032731359,
                   16870573513866133276, 6223823698934615319, 12657591655303300899,
                   11494396118247999232, 17275150748729506326, 12248859137272637358,
                   919383550077094476, 7348884659982592767, 17136575678769697706,
                   14734622643927918517],
          rate = 168, absorb_pos = 0\<rparr> \<and>
   shake_absorb
     \<lparr>state = [9043949231062883455, 4505013007965053025, 9853013927095450583,
                   2805574319695862507, 10613577533795250492, 7506090927794633744,
                   7179837696871367022, 16309696963834652828, 7123607453476632629,
                   8444243366050321080, 9840775137621348779, 12863776161131319861,
                   11914769427852615610, 4095277618251414511, 13603140465032731359,
                   16870573513866133276, 6223823698934615319, 12657591655303300899,
                   11494396118247999232, 17275150748729506326, 12248859137272637358,
                   919383550077094476, 7348884659982592767, 17136575678769697706,
                   14734622643927918517],
      rate = 168, absorb_pos = 0\<rparr> [0x01] =
     Inr \<lparr>state = [9043949231062883454, 4505013007965053025, 9853013927095450583,
                   2805574319695862507, 10613577533795250492, 7506090927794633744,
                   7179837696871367022, 16309696963834652828, 7123607453476632629,
                   8444243366050321080, 9840775137621348779, 12863776161131319861,
                   11914769427852615610, 4095277618251414511, 13603140465032731359,
                   16870573513866133276, 6223823698934615319, 12657591655303300899,
                   11494396118247999232, 17275150748729506326, 12248859137272637358,
                   919383550077094476, 7348884659982592767, 17136575678769697706,
                   14734622643927918517],
          rate = 168, absorb_pos = 1\<rparr> \<and>
   shake_finalize
     \<lparr>state = [9043949231062883455, 4505013007965053025, 9853013927095450583,
                   2805574319695862507, 10613577533795250492, 7506090927794633744,
                   7179837696871367022, 16309696963834652828, 7123607453476632629,
                   8444243366050321080, 9840775137621348779, 12863776161131319861,
                   11914769427852615610, 4095277618251414511, 13603140465032731359,
                   16870573513866133276, 6223823698934615319, 12657591655303300899,
                   11494396118247999232, 17275150748729506326, 12248859137272637358,
                   919383550077094476, 7348884659982592767, 17136575678769697706,
                   14734622643927918517],
      rate = 168, absorb_pos = 0\<rparr> =
     Inr \<lparr>state = [14242660508215232864, 17081435640980485728, 10285477566526454023,
                   1885764730410833988, 16644906247329707465, 14127044145656504798,
                   12342772937984043747, 4592061670999063827, 12419751646333765875,
                   6637058165415962879, 6035752779246405935, 14238588336357079362,
                   8124381867199313695, 3021411478303215391, 13160691377524829321,
                   12084003301635901753, 11528222327392726270, 8027973188068260362,
                   9878433522686736990, 11364688389761088234, 16846489249764650750,
                   7505429597813500070, 16635163672500373582, 13959403934472424440,
                   16217758769167872867],
          rate = 168, absorb_pos = 0\<rparr>"
proof (intro conjI)
  have "fst (shake_init 128) = \<lparr>state = replicate 25 0, rate = 168, absorb_pos = 0\<rparr>"
    by (simp add: shake_init_def SHAKE128_RATE_def STATE_SIZE_def)
  then show "shake_finalize (fst (shake_init 128)) =
     Inr \<lparr>state = [9043949231062883455, 4505013007965053025, 9853013927095450583,
                   2805574319695862507, 10613577533795250492, 7506090927794633744,
                   7179837696871367022, 16309696963834652828, 7123607453476632629,
                   8444243366050321080, 9840775137621348779, 12863776161131319861,
                   11914769427852615610, 4095277618251414511, 13603140465032731359,
                   16870573513866133276, 6223823698934615319, 12657591655303300899,
                   11494396118247999232, 17275150748729506326, 12248859137272637358,
                   919383550077094476, 7348884659982592767, 17136575678769697706,
                   14734622643927918517],
          rate = 168, absorb_pos = 0\<rparr>"
    by (simp only: shake_finalize_fresh128)
  show "shake_absorb
     \<lparr>state = [9043949231062883455, 4505013007965053025, 9853013927095450583,
                   2805574319695862507, 10613577533795250492, 7506090927794633744,
                   7179837696871367022, 16309696963834652828, 7123607453476632629,
                   8444243366050321080, 9840775137621348779, 12863776161131319861,
                   11914769427852615610, 4095277618251414511, 13603140465032731359,
                   16870573513866133276, 6223823698934615319, 12657591655303300899,
                   11494396118247999232, 17275150748729506326, 12248859137272637358,
                   919383550077094476, 7348884659982592767, 17136575678769697706,
                   14734622643927918517],
      rate = 168, absorb_pos = 0\<rparr> [0x01] =
     Inr \<lparr>state = [9043949231062883454, 4505013007965053025, 9853013927095450583,
                   2805574319695862507, 10613577533795250492, 7506090927794633744,
                   7179837696871367022, 16309696963834652828, 7123607453476632629,
                   8444243366050321080, 9840775137621348779, 12863776161131319861,
                   11914769427852615610, 4095277618251414511, 13603140465032731359,
                   16870573513866133276, 6223823698934615319, 12657591655303300899,
                   11494396118247999232, 17275150748729506326, 12248859137272637358,
                   919383550077094476, 7348884659982592767, 17136575678769697706,
                   14734622643927918517],
          rate = 168, absorb_pos = 1\<rparr>"
    by (simp add: shake_absorb_step_def xor_byte_def STATE_SIZE_def)
  show "shake_finalize
     \<lparr>state = [9043949231062883455, 4505013007965053025, 9853013927095450583,
                   2805574319695862507, 10613577533795250492, 7506090927794633744,
                   7179837696871367022, 16309696963834652828, 7123607453476632629,
                   8444243366050321080, 9840775137621348779, 12863776161131319861,
                   11914769427852615610, 4095277618251414511, 13603140465032731359,
                   16870573513866133276, 6223823698934615319, 12657591655303300899,
                   11494396118247999232, 17275150748729506326, 12248859137272637358,
                   919383550077094476, 7348884659982592767, 17136575678769697706,
                   14734622643927918517],
      rate = 168, absorb_pos = 0\<rparr> =
     Inr \<lparr>state = [14242660508215232864, 17081435640980485728, 10285477566526454023,
                   1885764730410833988, 16644906247329707465, 14127044145656504798,
                   12342772937984043747, 4592061670999063827, 12419751646333765875,
                   6637058165415962879, 6035752779246405935, 14238588336357079362,
                   8124381867199313695, 3021411478303215391, 13160691377524829321,
                   12084003301635901753, 11528222327392726270, 8027973188068260362,
                   9878433522686736990, 11364688389761088234, 16846489249764650750,
                   7505429597813500070, 16635163672500373582, 13959403934472424440,
                   16217758769167872867],
          rate = 168, absorb_pos = 0\<rparr>"
    by (simp add: shake_finalize_def xor_byte_def rate_minus_1_def STATE_SIZE_def
        keccak_f1600_pad128_twice)
qed

text \<open>
  C3, amended. The engine has no phase and no operation reports an invalid transition:
  on every engine that satisfies the invariant, \<open>shake_finalize\<close> succeeds and restores
  the invariant, so that a following \<open>shake_absorb\<close> of any input and a second
  \<open>shake_finalize\<close> succeed as well and update the state as they always do.
\<close>

theorem no_phase_check:
  "engine_inv ctx \<Longrightarrow>
     \<exists>c1. shake_finalize ctx = Inr c1 \<and> engine_inv c1 \<and>
          (\<exists>c2. shake_absorb c1 input = Inr c2 \<and> engine_inv c2) \<and>
          (\<exists>c3. shake_finalize c1 = Inr c3 \<and> engine_inv c3)"
  by (meson shake_finalize_inv shake_absorb_inv)

theorem no_phase_check_witness:
  "engine_inv (fst (shake_init 128)) \<and>
   (\<exists>c1. shake_finalize (fst (shake_init 128)) = Inr c1 \<and> engine_inv c1 \<and>
          (\<exists>c2. shake_absorb c1 [0x01] = Inr c2 \<and> engine_inv c2) \<and>
          (\<exists>c3. shake_finalize c1 = Inr c3 \<and> engine_inv c3))"
  using no_phase_check [of "fst (shake_init 128)" "[0x01]"] engine_inv_init [of 128] by simp

section \<open>Absorbing after a full block was squeezed\<close>

text \<open>
  C9, as stated, fails. \<open>shake_squeeze\<close> tests for a refill only at the top of its
  loop, so squeezing exactly \<open>rate\<close> bytes returns with the cursor equal to the rate.
  On the engine that has finalized the empty message and squeezed 168 bytes,
  \<open>shake_absorb\<close> of the byte \<open>0xFF\<close> returns normally, its one access is a byte XOR
  at index 168, which is not below the rate, no permutation runs, and byte 168 of the
  lanes changes from \<open>0x4c\<close> to \<open>0xb3\<close>.
\<close>

theorem absorb_after_full_squeeze_touches_capacity:
  "shake_finalize (fst (shake_init 128)) =
     Inr \<lparr>state = [9043949231062883455, 4505013007965053025, 9853013927095450583,
                   2805574319695862507, 10613577533795250492, 7506090927794633744,
                   7179837696871367022, 16309696963834652828, 7123607453476632629,
                   8444243366050321080, 9840775137621348779, 12863776161131319861,
                   11914769427852615610, 4095277618251414511, 13603140465032731359,
                   16870573513866133276, 6223823698934615319, 12657591655303300899,
                   11494396118247999232, 17275150748729506326, 12248859137272637358,
                   919383550077094476, 7348884659982592767, 17136575678769697706,
                   14734622643927918517],
          rate = 168, absorb_pos = 0\<rparr> \<and>
   map_sum id fst
     (shake_squeeze
        \<lparr>state = [9043949231062883455, 4505013007965053025, 9853013927095450583,
                   2805574319695862507, 10613577533795250492, 7506090927794633744,
                   7179837696871367022, 16309696963834652828, 7123607453476632629,
                   8444243366050321080, 9840775137621348779, 12863776161131319861,
                   11914769427852615610, 4095277618251414511, 13603140465032731359,
                   16870573513866133276, 6223823698934615319, 12657591655303300899,
                   11494396118247999232, 17275150748729506326, 12248859137272637358,
                   919383550077094476, 7348884659982592767, 17136575678769697706,
                   14734622643927918517],
         rate = 168, absorb_pos = 0\<rparr> 168) =
     Inr \<lparr>state = [9043949231062883455, 4505013007965053025, 9853013927095450583,
                   2805574319695862507, 10613577533795250492, 7506090927794633744,
                   7179837696871367022, 16309696963834652828, 7123607453476632629,
                   8444243366050321080, 9840775137621348779, 12863776161131319861,
                   11914769427852615610, 4095277618251414511, 13603140465032731359,
                   16870573513866133276, 6223823698934615319, 12657591655303300899,
                   11494396118247999232, 17275150748729506326, 12248859137272637358,
                   919383550077094476, 7348884659982592767, 17136575678769697706,
                   14734622643927918517],
          rate = 168, absorb_pos = 168\<rparr> \<and>
   shake_absorb
     \<lparr>state = [9043949231062883455, 4505013007965053025, 9853013927095450583,
                   2805574319695862507, 10613577533795250492, 7506090927794633744,
                   7179837696871367022, 16309696963834652828, 7123607453476632629,
                   8444243366050321080, 9840775137621348779, 12863776161131319861,
                   11914769427852615610, 4095277618251414511, 13603140465032731359,
                   16870573513866133276, 6223823698934615319, 12657591655303300899,
                   11494396118247999232, 17275150748729506326, 12248859137272637358,
                   919383550077094476, 7348884659982592767, 17136575678769697706,
                   14734622643927918517],
      rate = 168, absorb_pos = 168\<rparr> [0xFF] =
     Inr \<lparr>state = [9043949231062883455, 4505013007965053025, 9853013927095450583,
                   2805574319695862507, 10613577533795250492, 7506090927794633744,
                   7179837696871367022, 16309696963834652828, 7123607453476632629,
                   8444243366050321080, 9840775137621348779, 12863776161131319861,
                   11914769427852615610, 4095277618251414511, 13603140465032731359,
                   16870573513866133276, 6223823698934615319, 12657591655303300899,
                   11494396118247999232, 17275150748729506326, 12248859137272637358,
                   919383550077094579, 7348884659982592767, 17136575678769697706,
                   14734622643927918517],
          rate = 168, absorb_pos = 169\<rparr> \<and>
   absorb_accesses 168 168 [0xFF] = [ByteXor 168 0xFF] \<and>
   \<not> below_rate 168 (ByteXor 168 0xFF) \<and>
   get_byte [9043949231062883455, 4505013007965053025, 9853013927095450583,
                   2805574319695862507, 10613577533795250492, 7506090927794633744,
                   7179837696871367022, 16309696963834652828, 7123607453476632629,
                   8444243366050321080, 9840775137621348779, 12863776161131319861,
                   11914769427852615610, 4095277618251414511, 13603140465032731359,
                   16870573513866133276, 6223823698934615319, 12657591655303300899,
                   11494396118247999232, 17275150748729506326, 12248859137272637358,
                   919383550077094476, 7348884659982592767, 17136575678769697706,
                   14734622643927918517] 168 = Inr 0x4c \<and>
   get_byte [9043949231062883455, 4505013007965053025, 9853013927095450583,
                   2805574319695862507, 10613577533795250492, 7506090927794633744,
                   7179837696871367022, 16309696963834652828, 7123607453476632629,
                   8444243366050321080, 9840775137621348779, 12863776161131319861,
                   11914769427852615610, 4095277618251414511, 13603140465032731359,
                   16870573513866133276, 6223823698934615319, 12657591655303300899,
                   11494396118247999232, 17275150748729506326, 12248859137272637358,
                   919383550077094579, 7348884659982592767, 17136575678769697706,
                   14734622643927918517] 168 = Inr 0xb3"
proof (intro conjI)
  have "fst (shake_init 128) = \<lparr>state = replicate 25 0, rate = 168, absorb_pos = 0\<rparr>"
    by (simp add: shake_init_def SHAKE128_RATE_def STATE_SIZE_def)
  then show "shake_finalize (fst (shake_init 128)) =
     Inr \<lparr>state = [9043949231062883455, 4505013007965053025, 9853013927095450583,
                   2805574319695862507, 10613577533795250492, 7506090927794633744,
                   7179837696871367022, 16309696963834652828, 7123607453476632629,
                   8444243366050321080, 9840775137621348779, 12863776161131319861,
                   11914769427852615610, 4095277618251414511, 13603140465032731359,
                   16870573513866133276, 6223823698934615319, 12657591655303300899,
                   11494396118247999232, 17275150748729506326, 12248859137272637358,
                   919383550077094476, 7348884659982592767, 17136575678769697706,
                   14734622643927918517],
          rate = 168, absorb_pos = 0\<rparr>"
    by (simp only: shake_finalize_fresh128)
  show "map_sum id fst
     (shake_squeeze
        \<lparr>state = [9043949231062883455, 4505013007965053025, 9853013927095450583,
                   2805574319695862507, 10613577533795250492, 7506090927794633744,
                   7179837696871367022, 16309696963834652828, 7123607453476632629,
                   8444243366050321080, 9840775137621348779, 12863776161131319861,
                   11914769427852615610, 4095277618251414511, 13603140465032731359,
                   16870573513866133276, 6223823698934615319, 12657591655303300899,
                   11494396118247999232, 17275150748729506326, 12248859137272637358,
                   919383550077094476, 7348884659982592767, 17136575678769697706,
                   14734622643927918517],
         rate = 168, absorb_pos = 0\<rparr> 168) =
     Inr \<lparr>state = [9043949231062883455, 4505013007965053025, 9853013927095450583,
                   2805574319695862507, 10613577533795250492, 7506090927794633744,
                   7179837696871367022, 16309696963834652828, 7123607453476632629,
                   8444243366050321080, 9840775137621348779, 12863776161131319861,
                   11914769427852615610, 4095277618251414511, 13603140465032731359,
                   16870573513866133276, 6223823698934615319, 12657591655303300899,
                   11494396118247999232, 17275150748729506326, 12248859137272637358,
                   919383550077094476, 7348884659982592767, 17136575678769697706,
                   14734622643927918517],
          rate = 168, absorb_pos = 168\<rparr>"
    using shake_squeeze_within
      [of "\<lparr>state = [9043949231062883455, 4505013007965053025, 9853013927095450583,
                   2805574319695862507, 10613577533795250492, 7506090927794633744,
                   7179837696871367022, 16309696963834652828, 7123607453476632629,
                   8444243366050321080, 9840775137621348779, 12863776161131319861,
                   11914769427852615610, 4095277618251414511, 13603140465032731359,
                   16870573513866133276, 6223823698934615319, 12657591655303300899,
                   11494396118247999232, 17275150748729506326, 12248859137272637358,
                   919383550077094476, 7348884659982592767, 17136575678769697706,
                   14734622643927918517],
            rate = 168, absorb_pos = 0\<rparr>" 168]
    by simp
  show "shake_absorb
     \<lparr>state = [9043949231062883455, 4505013007965053025, 9853013927095450583,
                   2805574319695862507, 10613577533795250492, 7506090927794633744,
                   7179837696871367022, 16309696963834652828, 7123607453476632629,
                   8444243366050321080, 9840775137621348779, 12863776161131319861,
                   11914769427852615610, 4095277618251414511, 13603140465032731359,
                   16870573513866133276, 6223823698934615319, 12657591655303300899,
                   11494396118247999232, 17275150748729506326, 12248859137272637358,
                   919383550077094476, 7348884659982592767, 17136575678769697706,
                   14734622643927918517],
      rate = 168, absorb_pos = 168\<rparr> [0xFF] =
     Inr \<lparr>state = [9043949231062883455, 4505013007965053025, 9853013927095450583,
                   2805574319695862507, 10613577533795250492, 7506090927794633744,
                   7179837696871367022, 16309696963834652828, 7123607453476632629,
                   8444243366050321080, 9840775137621348779, 12863776161131319861,
                   11914769427852615610, 4095277618251414511, 13603140465032731359,
                   16870573513866133276, 6223823698934615319, 12657591655303300899,
                   11494396118247999232, 17275150748729506326, 12248859137272637358,
                   919383550077094579, 7348884659982592767, 17136575678769697706,
                   14734622643927918517],
          rate = 168, absorb_pos = 169\<rparr>"
    by (simp add: shake_absorb_step_def xor_byte_def STATE_SIZE_def)
  show "absorb_accesses 168 168 [0xFF] = [ByteXor 168 0xFF]"
    by simp
  show "\<not> below_rate 168 (ByteXor 168 0xFF)"
    by simp
  show "get_byte [9043949231062883455, 4505013007965053025, 9853013927095450583,
                   2805574319695862507, 10613577533795250492, 7506090927794633744,
                   7179837696871367022, 16309696963834652828, 7123607453476632629,
                   8444243366050321080, 9840775137621348779, 12863776161131319861,
                   11914769427852615610, 4095277618251414511, 13603140465032731359,
                   16870573513866133276, 6223823698934615319, 12657591655303300899,
                   11494396118247999232, 17275150748729506326, 12248859137272637358,
                   919383550077094476, 7348884659982592767, 17136575678769697706,
                   14734622643927918517] 168 = Inr 0x4c"
    by (simp add: get_byte_def STATE_SIZE_def)
  show "get_byte [9043949231062883455, 4505013007965053025, 9853013927095450583,
                   2805574319695862507, 10613577533795250492, 7506090927794633744,
                   7179837696871367022, 16309696963834652828, 7123607453476632629,
                   8444243366050321080, 9840775137621348779, 12863776161131319861,
                   11914769427852615610, 4095277618251414511, 13603140465032731359,
                   16870573513866133276, 6223823698934615319, 12657591655303300899,
                   11494396118247999232, 17275150748729506326, 12248859137272637358,
                   919383550077094579, 7348884659982592767, 17136575678769697706,
                   14734622643927918517] 168 = Inr 0xb3"
    by (simp add: get_byte_def STATE_SIZE_def)
qed

section \<open>The rotation by zero\<close>

lemma rho_pi_rotl_args_unrolled:
  "rho_pi_rotl_args =
     [0, 36, 3, 41, 18, 1, 44, 10, 45, 2, 62, 6, 43, 15, 61, 28, 55, 25, 21, 56,
      27, 20, 39, 8, 14]"
  by (simp add: rho_pi_rotl_args_def loop_xy_unrolled idx_def keccak_rotations_def)

lemma rho_pi_calls_rotl64:
  "rho_pi s =
     fold (\<lambda>((x, y), n) B. B[idx y ((2 * x + 3 * y) mod 5) := rotl64 (s ! idx x y) (nat n)])
       (zip loop_xy rho_pi_rotl_args) (replicate 25 0)"
  by (simp add: rho_pi_def rho_pi_rotl_args_def loop_xy_unrolled)

lemma other_rotations_defined:
  "list_all rotl64_shift_defined theta_rotl_args \<and>
   list_all rotl64_shift_defined (tl rho_pi_rotl_args)"
  by (simp add: rho_pi_rotl_args_unrolled theta_rotl_args_def rotl64_shift_defined_def upt_0_5)

text \<open>
  C2. The first iteration of the rho/pi loop (position (0,0)) hands the rotation count
  \<open>keccak_rotations[0] = 0\<close> to \<open>rotl64\<close>, whose right shift count \<open>64 - n\<close> is then
  64, outside the range C defines for a 64-bit operand. The lane with offset 0 is not
  special-cased. (All other counts of a round lie strictly between 0 and 64.)
\<close>

theorem rotl64_called_with_zero:
  "hd loop_xy = (0, 0) \<and> hd rho_pi_rotl_args = 0 \<and>
   \<not> rotl64_shift_defined (hd rho_pi_rotl_args) \<and> 64 - hd rho_pi_rotl_args = 64"
  by (simp add: rho_pi_rotl_args_unrolled loop_xy_unrolled rotl64_shift_defined_def)
section \<open>The placeholder hash of the key-generation demo\<close>

lemma collect_results_all_Inr:
  "(\<And>x. x \<in> set xs \<Longrightarrow> f x = Inr (g x)) \<Longrightarrow> collect_results (map f xs) = Inr (map g xs)"
  by (induction xs) simp_all

lemma shake256_placeholder_nonempty:
  assumes "0 < inlen" "inlen \<le> length input"
  shows "shake256_placeholder outlen input inlen =
           Inr (map (\<lambda>i. input ! (i mod inlen) XOR ucast ((of_nat i :: 64 word) AND 0xFF))
                  [0..<outlen])"
  unfolding shake256_placeholder_def
proof (rule collect_results_all_Inr)
  fix i
  from assms have "i mod inlen < length input"
    by (meson mod_less_divisor less_le_trans)
  with assms(1) show "shake256_placeholder_byte input inlen i =
      Inr (input ! (i mod inlen) XOR ucast ((of_nat i :: 64 word) AND 0xFF))"
    by (simp add: shake256_placeholder_byte_def)
qed

lemma shake256_placeholder_empty:
  assumes "0 < outlen"
  shows "shake256_placeholder outlen input 0 = Inl DivisionByZero"
proof -
  from assms have "[0..<outlen] = 0 # [Suc 0..<outlen]"
    by (simp add: upt_conv_Cons)
  then show ?thesis
    by (simp add: shake256_placeholder_def shake256_placeholder_byte_def)
qed

lemma sample_small_poly_ok:
  assumes "SEEDBYTES \<le> length seed"
  shows "\<exists>p. sample_small_poly seed nonce = Inr p \<and> length p = N"
proof -
  let ?e = "take SEEDBYTES seed @ [ucast (nonce AND 0xFF), ucast (drop_bit 8 nonce)]"
  from assms have "length ?e = SEEDBYTES + 2" by simp
  then have "0 < SEEDBYTES + 2" "SEEDBYTES + 2 \<le> length ?e" by simp_all
  from shake256_placeholder_nonempty [OF this, of "N * 2"] assms show ?thesis
    by (simp add: sample_small_poly_def Let_def)
qed

lemma expand_matrix_entry_ok:
  assumes "SEEDBYTES \<le> length seed"
  shows "\<exists>p. expand_matrix_entry seed i j = Inr p \<and> length p = N"
proof -
  let ?e = "take SEEDBYTES seed @ [of_nat i, of_nat j]"
  from assms have "length ?e = SEEDBYTES + 2" by simp
  then have "0 < SEEDBYTES + 2" "SEEDBYTES + 2 \<le> length ?e" by simp_all
  from shake256_placeholder_nonempty [OF this, of "N * 4"] assms show ?thesis
    by (simp add: expand_matrix_entry_def Let_def)
qed

lemma expand_matrix_a_ok:
  assumes "SEEDBYTES \<le> length seed"
  shows "\<exists>A. expand_matrix_a seed = Inr A \<and> length A = K \<and> (\<forall>row \<in> set A. length row = L)"
proof -
  define g where "g i j = projr (expand_matrix_entry seed i j)" for i j
  have e: "expand_matrix_entry seed i j = Inr (g i j)" for i j
    using expand_matrix_entry_ok [OF assms, of i j] by (auto simp add: g_def)
  have row: "collect_results (map (\<lambda>j. expand_matrix_entry seed i j) [0..<L]) =
             Inr (map (g i) [0..<L])" for i
    by (rule collect_results_all_Inr) (rule e)
  have "expand_matrix_a seed = Inr (map (\<lambda>i. map (g i) [0..<L]) [0..<K])"
    unfolding expand_matrix_a_def
    by (rule collect_results_all_Inr) (rule row)
  then show ?thesis by auto
qed

text \<open>
  C10. The placeholder \<open>shake256\<close> of the key-generation file: for \<open>inlen > 0\<close> (and a
  buffer of at least \<open>inlen\<close> bytes) every read \<open>input[i mod inlen]\<close> is in bounds and
  the function returns exactly \<open>outlen\<close> bytes, each \<open>input[i mod inlen] XOR (i AND 0xFF)\<close>;
  for \<open>inlen = 0\<close> the first iteration divides by zero. Both callers,
  \<open>sample_small_poly\<close> and \<open>expand_matrix_a\<close>, pass \<open>SEEDBYTES + 2\<close> and never fail
  on a seed of \<open>SEEDBYTES\<close> bytes.
\<close>

theorem placeholder_shake256_precondition:
  "(0 < inlen \<and> inlen \<le> length input \<longrightarrow>
      (\<exists>out. shake256_placeholder outlen input inlen = Inr out \<and> length out = outlen \<and>
         (\<forall>i<outlen. i mod inlen < length input \<and>
            out ! i = input ! (i mod inlen) XOR ucast ((of_nat i :: 64 word) AND 0xFF)))) \<and>
   (0 < outlen \<longrightarrow> shake256_placeholder outlen input 0 = Inl DivisionByZero) \<and>
   (SEEDBYTES \<le> length seed \<longrightarrow>
      (\<exists>p. sample_small_poly seed nonce = Inr p \<and> length p = N) \<and>
      (\<exists>A. expand_matrix_a seed = Inr A \<and> length A = K \<and> (\<forall>row \<in> set A. length row = L)))"
proof (intro conjI impI)
  assume a: "0 < inlen \<and> inlen \<le> length input"
  then have m: "i mod inlen < length input" for i
    by (meson mod_less_divisor less_le_trans)
  from a shake256_placeholder_nonempty [of inlen input outlen]
  have "shake256_placeholder outlen input inlen =
           Inr (map (\<lambda>i. input ! (i mod inlen) XOR ucast ((of_nat i :: 64 word) AND 0xFF))
                  [0..<outlen])"
    by simp
  with m show "\<exists>out. shake256_placeholder outlen input inlen = Inr out \<and> length out = outlen \<and>
         (\<forall>i<outlen. i mod inlen < length input \<and>
            out ! i = input ! (i mod inlen) XOR ucast ((of_nat i :: 64 word) AND 0xFF))"
    by simp
next
  assume "0 < outlen"
  then show "shake256_placeholder outlen input 0 = Inl DivisionByZero"
    by (rule shake256_placeholder_empty)
next
  assume "SEEDBYTES \<le> length seed"
  then show "\<exists>p. sample_small_poly seed nonce = Inr p \<and> length p = N"
    and "\<exists>A. expand_matrix_a seed = Inr A \<and> length A = K \<and> (\<forall>row \<in> set A. length row = L)"
    by (rule sample_small_poly_ok, rule expand_matrix_a_ok)
qed

theorem placeholder_shake256_precondition_witness:
  "(0::nat) < 2 \<and> (2::nat) \<le> length [0x10, 0x20 :: byte] \<and> (0::nat) < 3 \<and>
   SEEDBYTES \<le> length (replicate 32 (0x5a :: byte)) \<and>
   (\<exists>out. shake256_placeholder 3 [0x10, 0x20] 2 = Inr out \<and> length out = 3 \<and>
      (\<forall>i<3. i mod 2 < length [0x10, 0x20 :: byte] \<and>
         out ! i = [0x10, 0x20] ! (i mod 2) XOR ucast ((of_nat i :: 64 word) AND 0xFF))) \<and>
   shake256_placeholder 3 [0x10, 0x20] 0 = Inl DivisionByZero \<and>
   (\<exists>p. sample_small_poly (replicate 32 0x5a) 7 = Inr p \<and> length p = N) \<and>
   (\<exists>A. expand_matrix_a (replicate 32 0x5a) = Inr A \<and> length A = K \<and>
      (\<forall>row \<in> set A. length row = L))"
proof -
  have h: "(0::nat) < 2 \<and> (2::nat) \<le> length [0x10, 0x20 :: byte]" "(0::nat) < 3"
    "SEEDBYTES \<le> length (replicate 32 (0x5a :: byte))"
    by (simp_all add: SEEDBYTES_def)
  from placeholder_shake256_precondition [of 2 "[0x10, 0x20]" 3 "replicate 32 0x5a" 7] h
  show ?thesis
    by blast
qed

end
